theory Spec2Isabelle
  imports Main
begin

section \<open>JavaScript values\<close>

text \<open>
  The services exchange JSON. A value read from a request body, a message payload or an
  upstream reply is a \<open>json\<close>; a property that is absent reads as \<open>undefined\<close>, which
  is \<open>None\<close> of \<open>json option\<close>. A JSON number is modelled as an integer, one of those a
  double holds exactly (no field of a request or of an upstream reply is used in
  arithmetic).

  A \<open>char\<close> is one UTF-16 code unit below 256, so a \<open>string\<close> is a JavaScript string of the
  Latin-1 range; a string with a code unit beyond it has no counterpart here. On this range
  case mapping is a map over the code units, and it is modelled in full. An object lists
  each of its properties once, as \<^verbatim>\<open>JSON.parse\<close> yields it.
\<close>

datatype json =
    JNull
  | JBool bool
  | JNum int
  | JStr string
  | JArr "json list"
  | JObj "(string \<times> json) list"

datatype js_error = TypeError | SyntaxError | AxiosError

text \<open>JavaScript truthiness, as tested by \<^verbatim>\<open>if (x)\<close>, \<^verbatim>\<open>!x\<close> and \<^verbatim>\<open>x || y\<close>.\<close>

fun truthy :: "json option \<Rightarrow> bool" where
  "truthy None = False"
| "truthy (Some JNull) = False"
| "truthy (Some (JBool b)) = b"
| "truthy (Some (JNum n)) = (n \<noteq> 0)"
| "truthy (Some (JStr s)) = (s \<noteq> [])"
| "truthy (Some (JArr xs)) = True"
| "truthy (Some (JObj kvs)) = True"

text \<open>
  Property read \<^verbatim>\<open>x.f\<close>: a TypeError on \<open>undefined\<close> and \<open>null\<close>, the property of an
  object, and \<open>undefined\<close> on any other value (none of the names the services read is a
  built-in property of a string, number, boolean or array).
\<close>

fun property :: "json \<Rightarrow> string \<Rightarrow> json option" where
  "property (JObj kvs) f = map_of kvs f"
| "property v f = None"

fun get_prop :: "json option \<Rightarrow> string \<Rightarrow> js_error + json option" where
  "get_prop None f = Inl TypeError"
| "get_prop (Some JNull) f = Inl TypeError"
| "get_prop (Some v) f = Inr (property v f)"

text \<open>
  An object literal as \<^verbatim>\<open>JSON.stringify\<close> and \<^verbatim>\<open>res.json\<close> serialise it: a property
  whose value is \<open>undefined\<close> is left out.
\<close>

definition obj :: "(string \<times> json option) list \<Rightarrow> json" where
  "obj kvs = JObj (List.map_filter (\<lambda>(k, v). map_option (Pair k) v) kvs)"

subsection \<open>Strings and numbers\<close>

text \<open>
  The code units with a lower-case form: \<open>A\<close> to \<open>Z\<close> and U+00C0 to U+00DE without the
  multiplication sign U+00D7. The lower-case form is 32 further on.
\<close>

definition has_lower :: "nat \<Rightarrow> bool" where
  "has_lower n = ((65 \<le> n \<and> n \<le> 90) \<or> (192 \<le> n \<and> n \<le> 222 \<and> n \<noteq> 215))"

definition lower_char :: "char \<Rightarrow> char" where
  "lower_char c = (if has_lower (of_char c) then char_of ((of_char c :: nat) + 32) else c)"

definition toLowerCase :: "string \<Rightarrow> string" where
  "toLowerCase s = map lower_char s"

text \<open>
  The canonical form under which a regular expression with the flag \<^verbatim>\<open>i\<close> compares two code
  units: the upper-case form when that is a single code unit. For U+00FF it is U+0178 and
  for the micro sign U+00B5 it is U+039C, both beyond the range; U+00DF has none.
\<close>

definition canonicalize :: "char \<Rightarrow> nat" where
  "canonicalize c =
     (let n = (of_char c :: nat) in
      if (97 \<le> n \<and> n \<le> 122) \<or> (224 \<le> n \<and> n \<le> 254 \<and> n \<noteq> 247) then n - 32
      else if n = 255 then 376
      else if n = 181 then 924
      else n)"

text \<open>\<^verbatim>\<open>x.toLowerCase()\<close> on a value: only a string has the method.\<close>

fun call_toLowerCase :: "json option \<Rightarrow> js_error + string" where
  "call_toLowerCase (Some (JStr s)) = Inr (toLowerCase s)"
| "call_toLowerCase v = Inl TypeError"

definition startsWith :: "string \<Rightarrow> string \<Rightarrow> bool" where
  "startsWith s p = (take (length p) s = p)"

fun digits10 :: "nat \<Rightarrow> string" where
  "digits10 n =
     (if n < 10 then [char_of (48 + n)]
      else digits10 (n div 10) @ [char_of (48 + n mod 10)])"

declare digits10.simps [simp del]

text \<open>
  A JavaScript number is a double. The integers up to \<open>2^53\<close> in absolute value are doubles,
  sums of them that stay in this range are exact, and \<^verbatim>\<open>String(n)\<close> prints them in decimal.
  Beyond the range a sum is rounded and a number may print with an exponent: such a number
  is not modelled, it is \<open>Inexact\<close>.
\<close>

definition exact :: "int \<Rightarrow> bool" where
  "exact n = (\<bar>n\<bar> \<le> 2 ^ 53)"

datatype number = NaN | Num int | Inexact

text \<open>\<^verbatim>\<open>String(n)\<close> of an integer \<open>n\<close> with \<open>exact n\<close>.\<close>

definition Number_toString :: "int \<Rightarrow> string" where
  "Number_toString n = (if n < 0 then CHR ''-'' # digits10 (nat (- n)) else digits10 (nat n))"

fun intercalate :: "string \<Rightarrow> string list \<Rightarrow> string" where
  "intercalate sep [] = []"
| "intercalate sep [x] = x"
| "intercalate sep (x # y # ys) = x @ sep @ intercalate sep (y # ys)"

text \<open>\<^verbatim>\<open>String(x)\<close>, the conversion a template literal \<^verbatim>\<open>`${x}`\<close> applies.\<close>

fun json_toString :: "json \<Rightarrow> string" where
  "json_toString JNull = ''null''"
| "json_toString (JBool b) = (if b then ''true'' else ''false'')"
| "json_toString (JNum n) = Number_toString n"
| "json_toString (JStr s) = s"
| "json_toString (JArr xs) =
     intercalate '','' (map (\<lambda>x. if x = JNull then [] else json_toString x) xs)"
| "json_toString (JObj kvs) = ''[object Object]''"

definition toString :: "json option \<Rightarrow> string" where
  "toString v = (case v of None \<Rightarrow> ''undefined'' | Some x \<Rightarrow> json_toString x)"

definition is_space :: "char \<Rightarrow> bool" where
  "is_space c = ((of_char c :: nat) \<in> {9, 10, 11, 12, 13, 32, 160})"

definition is_digit :: "char \<Rightarrow> bool" where
  "is_digit c = (48 \<le> (of_char c :: nat) \<and> (of_char c :: nat) \<le> 57)"

text \<open>The value of a character as a digit; 36 when it is a digit in no radix.\<close>

definition digit_value :: "char \<Rightarrow> nat" where
  "digit_value c =
     (let n = (of_char c :: nat) in
      if 48 \<le> n \<and> n \<le> 57 then n - 48
      else if 97 \<le> n \<and> n \<le> 122 then n - 87
      else if 65 \<le> n \<and> n \<le> 90 then n - 55
      else 36)"

text \<open>
  \<^verbatim>\<open>parseInt(s)\<close> with no radix: leading white space, a sign, a \<^verbatim>\<open>0x\<close> prefix, then the
  longest run of digits.
\<close>

definition parseInt :: "string \<Rightarrow> number" where
  "parseInt s =
     (let s1 = dropWhile is_space s;
          neg = (take 1 s1 = ''-'');
          s2 = (if take 1 s1 = ''+'' \<or> take 1 s1 = ''-'' then drop 1 s1 else s1);
          hex = (take 2 s2 = ''0x'' \<or> take 2 s2 = ''0X'');
          s3 = (if hex then drop 2 s2 else s2);
          R = (if hex then 16 else 10);
          Z = takeWhile (\<lambda>c. digit_value c < R) s3;
          mathInt = (if neg then - 1 else 1) * int (foldl (\<lambda>a c. a * R + digit_value c) 0 Z)
      in if Z = [] then NaN else if exact mathInt then Num mathInt else Inexact)"

subsection \<open>Regular expressions\<close>

text \<open>
  \<^verbatim>\<open>name.match(new RegExp(source, 'i'))\<close> either throws a SyntaxError (the source is not
  a pattern), yields \<open>null\<close>, or yields a match whose element 1 is the first capture group
  (\<open>undefined\<close> when the group did not take part).
\<close>

datatype match_result = RegExpSyntaxError | NoMatch | Match "string option"

type_synonym regexp_engine = "string \<Rightarrow> string \<Rightarrow> match_result"

text \<open>
  The engine is modelled on the sources \<^verbatim>\<open>^B(\d+)$\<close> whose body \<open>B\<close> is a sequence of
  ordinary characters and dots, each with an optional quantifier \<^verbatim>\<open>*\<close>, \<^verbatim>\<open>+\<close> or \<^verbatim>\<open>?\<close>
  (lazy when followed by another \<^verbatim>\<open>?\<close>). A body with one of
  \<^verbatim>\<open>\ ( ) [ ] { } | ^ $\<close> is outside this fragment: there the engine is the parameter
  \<open>rest\<close>, about which nothing is assumed.
\<close>

datatype atom = AChar char | AAny

datatype quantifier = One | Star bool | Plus bool | Opt bool

definition backslash :: char where
  "backslash = CHR 0x5C"

definition digits_group :: string where
  "digits_group = [CHR ''('', backslash, CHR ''d'', CHR ''+'', CHR '')'', CHR ''$'']"

definition outside_fragment :: "char \<Rightarrow> bool" where
  "outside_fragment c = (c = backslash \<or> c \<in> set ''()[]{}|^$'')"

definition is_quantifier :: "char \<Rightarrow> bool" where
  "is_quantifier c = (c \<in> set ''*+?'')"

definition quantifier_of :: "char \<Rightarrow> bool \<Rightarrow> quantifier" where
  "quantifier_of q greedy =
     (if q = CHR ''*'' then Star greedy else if q = CHR ''+'' then Plus greedy else Opt greedy)"

definition atom_of :: "char \<Rightarrow> atom" where
  "atom_of c = (if c = CHR ''.'' then AAny else AChar c)"

text \<open>The body as terms; \<open>None\<close> is the SyntaxError "nothing to repeat".\<close>

fun parse_body :: "string \<Rightarrow> (atom \<times> quantifier) list option" where
  "parse_body [] = Some []"
| "parse_body [c] = (if is_quantifier c then None else Some [(atom_of c, One)])"
| "parse_body (c # q # cs) =
     (if is_quantifier c then None
      else if is_quantifier q then
        (case cs of
           [] \<Rightarrow> Some [(atom_of c, quantifier_of q True)]
         | l # cs' \<Rightarrow>
             if l = CHR ''?''
             then map_option (Cons (atom_of c, quantifier_of q False)) (parse_body cs')
             else map_option (Cons (atom_of c, quantifier_of q True)) (parse_body (l # cs')))
      else map_option (Cons (atom_of c, One)) (parse_body (q # cs)))"

text \<open>
  With the flag \<^verbatim>\<open>i\<close> two code units match when their canonical forms agree; a dot matches
  every code unit but a line terminator.
\<close>

fun atom_matches :: "atom \<Rightarrow> char \<Rightarrow> bool" where
  "atom_matches (AChar c) x = (canonicalize c = canonicalize x)"
| "atom_matches AAny x = ((of_char x :: nat) \<notin> {10, 13})"

text \<open>
  Backtracking as a list of successes: what is left of the subject after each way of
  matching, in the order the matcher tries them (a greedy quantifier the longest first).
\<close>

fun repeats :: "bool \<Rightarrow> atom \<Rightarrow> string \<Rightarrow> string list" where
  "repeats greedy a [] = [[]]"
| "repeats greedy a (x # xs) =
     (if atom_matches a x
      then (if greedy then repeats greedy a xs @ [x # xs] else (x # xs) # repeats greedy a xs)
      else [x # xs])"

fun match_term :: "atom \<times> quantifier \<Rightarrow> string \<Rightarrow> string list" where
  "match_term (a, One) s =
     (case s of [] \<Rightarrow> [] | x # xs \<Rightarrow> if atom_matches a x then [xs] else [])"
| "match_term (a, Star greedy) s = repeats greedy a s"
| "match_term (a, Plus greedy) s =
     (case s of [] \<Rightarrow> [] | x # xs \<Rightarrow> if atom_matches a x then repeats greedy a xs else [])"
| "match_term (a, Opt greedy) s =
     (case s of
        [] \<Rightarrow> [[]]
      | x # xs \<Rightarrow> if atom_matches a x then (if greedy then [xs, s] else [s, xs]) else [s])"

fun match_terms :: "(atom \<times> quantifier) list \<Rightarrow> string \<Rightarrow> string list" where
  "match_terms [] s = [s]"
| "match_terms (t # ts) s = concat (map (match_terms ts) (match_term t s))"

text \<open>
  After the body, \<^verbatim>\<open>(\d+)$\<close> succeeds exactly when what is left is a non-empty run of
  digits, which is then group 1; the first such way of matching the body is the match.
\<close>

definition all_digits :: "string \<Rightarrow> bool" where
  "all_digits r = (r \<noteq> [] \<and> list_all is_digit r)"

definition in_fragment :: "string \<Rightarrow> bool" where
  "in_fragment source =
     (7 \<le> length source \<and> take 1 source = ''^'' \<and>
      drop (length source - 6) source = digits_group \<and>
      \<not> list_ex outside_fragment (take (length source - 7) (drop 1 source)))"

definition RegExp_match :: "regexp_engine \<Rightarrow> regexp_engine" where
  "RegExp_match rest source subject =
     (if in_fragment source then
        (case parse_body (take (length source - 7) (drop 1 source)) of
           None \<Rightarrow> RegExpSyntaxError
         | Some ts \<Rightarrow>
             (case find all_digits (match_terms ts subject) of
                None \<Rightarrow> NoMatch
              | Some r \<Rightarrow> Match (Some r)))
      else rest source subject)"

text \<open>A prefix with no character that means anything but itself in a pattern.\<close>

definition plain_prefix :: "string \<Rightarrow> bool" where
  "plain_prefix p =
     (p \<noteq> [] \<and> \<not> list_ex (\<lambda>c. outside_fragment c \<or> is_quantifier c \<or> c = CHR ''.'') p)"

section \<open>Upstream calls\<close>

text \<open>
  What an axios request meets: no response at all (transport failure) or a response with
  a status and a body. Both clients are created with
  \<^verbatim>\<open>validateStatus: (status) => status >= 200 && status < 300\<close>, so the promise rejects
  on every other status.
\<close>

datatype 'a axios_response = NoResponse | Response nat 'a

definition validateStatus :: "nat \<Rightarrow> bool" where
  "validateStatus status = (200 \<le> status \<and> status < 300)"

fun axios_result :: "'a axios_response \<Rightarrow> js_error + 'a" where
  "axios_result NoResponse = Inl AxiosError"
| "axios_result (Response status d) = (if validateStatus status then Inr d else Inl AxiosError)"

record http_response =
  status_code :: nat
  json_body :: json

definition reply :: "nat \<Rightarrow> (string \<times> json option) list \<Rightarrow> http_response" where
  "reply st kvs = \<lparr>status_code = st, json_body = obj kvs\<rparr>"

section \<open>The ProxMox service\<close>

text \<open>
  An entry of the inventory is whatever JSON value the upstream lists; the handlers read
  its \<open>name\<close>.

  \<^verbatim>\<open>vms.some(vm => vm.name.toLowerCase() === normalizedHostname)\<close> on a value: only an
  array has the method. It takes the entries in order up to the first match, and an entry
  that is \<open>null\<close>, or whose \<open>name\<close> is not a string, throws.
\<close>

fun as_array :: "json option \<Rightarrow> js_error + json list" where
  "as_array (Some (JArr xs)) = Inr xs"
| "as_array v = Inl TypeError"

fun hostname_exists :: "json list \<Rightarrow> string \<Rightarrow> js_error + bool" where
  "hostname_exists [] normalizedHostname = Inr False"
| "hostname_exists (vm # vms) normalizedHostname =
     (case get_prop (Some vm) ''name'' of
        Inl e \<Rightarrow> Inl e
      | Inr n \<Rightarrow>
          (case call_toLowerCase n of
             Inl e \<Rightarrow> Inl e
           | Inr lower \<Rightarrow>
               if lower = normalizedHostname then Inr True
               else hostname_exists vms normalizedHostname))"

text \<open>
  \<^verbatim>\<open>vms.filter(vm => vm.name.toLowerCase().startsWith(prefixLower)).map(vm => vm.name)\<close>:
  the filter visits every entry and throws like \<open>some\<close>.
\<close>

fun existing_prefix_names :: "json list \<Rightarrow> string \<Rightarrow> js_error + string list" where
  "existing_prefix_names [] prefixLower = Inr []"
| "existing_prefix_names (vm # vms) prefixLower =
     (case get_prop (Some vm) ''name'' of
        Inl e \<Rightarrow> Inl e
      | Inr n \<Rightarrow>
          (case call_toLowerCase n of
             Inl e \<Rightarrow> Inl e
           | Inr lower \<Rightarrow>
               (case existing_prefix_names vms prefixLower of
                  Inl e \<Rightarrow> Inl e
                | Inr names \<Rightarrow>
                    Inr (if startsWith lower prefixLower then toString n # names else names))))"

definition regexp_source :: "string \<Rightarrow> string" where
  "regexp_source prefix = ''^'' @ prefix @ digits_group"

text \<open>
  The \<^verbatim>\<open>forEach\<close> that finds the highest number, \<open>maxNumber\<close> being its accumulator. The
  result is \<open>None\<close> once a name carries a number that is \<open>Inexact\<close>.
\<close>

fun highest_number ::
  "regexp_engine \<Rightarrow> string \<Rightarrow> string list \<Rightarrow> int \<Rightarrow> js_error + int option"
where
  "highest_number rx prefix [] maxNumber = Inr (Some maxNumber)"
| "highest_number rx prefix (n # names) maxNumber =
     (case rx (regexp_source prefix) n of
        RegExpSyntaxError \<Rightarrow> Inl SyntaxError
      | NoMatch \<Rightarrow> highest_number rx prefix names maxNumber
      | Match g \<Rightarrow>
          (case g of
             None \<Rightarrow> highest_number rx prefix names maxNumber
           | Some d \<Rightarrow>
               if d = [] then highest_number rx prefix names maxNumber
               else (case parseInt d of
                       NaN \<Rightarrow> highest_number rx prefix names maxNumber
                     | Inexact \<Rightarrow> Inr None
                     | Num num \<Rightarrow>
                         if num > maxNumber then highest_number rx prefix names num
                         else highest_number rx prefix names maxNumber)))"

text \<open>
  The suggestions block of the handler, entered when \<open>prefix\<close> is truthy. When a number
  of the block is \<open>Inexact\<close> the suggestions are those of the parameter \<open>big\<close>, a function of
  the prefix and of the names matched against it, about which nothing is assumed.
\<close>

type_synonym big_numbers = "string \<Rightarrow> string list \<Rightarrow> js_error + string list"

definition suggest ::
  "regexp_engine \<Rightarrow> big_numbers \<Rightarrow> json option \<Rightarrow> json list \<Rightarrow> js_error + string list"
where
  "suggest rx big prefix vms =
     (case call_toLowerCase prefix of
        Inl e \<Rightarrow> Inl e
      | Inr prefixLower \<Rightarrow>
          (case existing_prefix_names vms prefixLower of
             Inl e \<Rightarrow> Inl e
           | Inr existingPrefixNames \<Rightarrow>
               (case highest_number rx (toString prefix) existingPrefixNames 0 of
                  Inl e \<Rightarrow> Inl e
                | Inr None \<Rightarrow> big (toString prefix) existingPrefixNames
                | Inr (Some maxNumber) \<Rightarrow>
                    if exact (maxNumber + 3)
                    then Inr (map (\<lambda>i. toString prefix @ Number_toString (maxNumber + i))
                                [1, 2, 3])
                    else big (toString prefix) existingPrefixNames)))"

definition internal_error :: "string \<Rightarrow> http_response" where
  "internal_error msg =
     reply 500 [(''error'', Some (JStr ''Internal Server Error'')), (''message'', Some (JStr msg))]"

definition bad_request :: "string \<Rightarrow> http_response" where
  "bad_request msg =
     reply 400 [(''error'', Some (JStr ''Bad Request'')), (''message'', Some (JStr msg))]"

text \<open>
  \<^verbatim>\<open>POST /proxmox/check-hostname\<close>, after \<open>verifyToken\<close>: \<open>hostname\<close> and \<open>prefix\<close> are
  the two properties read from the request body, \<open>upstream\<close> is what
  \<^verbatim>\<open>GET /cluster/resources?type=vm\<close> meets, with the body of the answer.
\<close>

definition check_hostname_try ::
  "regexp_engine \<Rightarrow> big_numbers \<Rightarrow> json option \<Rightarrow> json option \<Rightarrow> json axios_response
     \<Rightarrow> js_error + http_response"
where
  "check_hostname_try rx big hostname prefix upstream =
     (case axios_result upstream of
        Inl e \<Rightarrow> Inl e
      | Inr body \<Rightarrow>
          (case get_prop (Some body) ''data'' of
             Inl e \<Rightarrow> Inl e
           | Inr data \<Rightarrow>
               (case call_toLowerCase hostname of
                  Inl e \<Rightarrow> Inl e
                | Inr normalizedHostname \<Rightarrow>
                    (case as_array data of
                       Inl e \<Rightarrow> Inl e
                     | Inr vms \<Rightarrow>
                         (case hostname_exists vms normalizedHostname of
                            Inl e \<Rightarrow> Inl e
                          | Inr exists \<Rightarrow>
                              if exists
                              then Inr (reply 200
                                     [(''available'', Some (JBool False)),
                                      (''message'',
                                         Some (JStr (''Hostname '' @ [CHR 0x27] @
                                           toString hostname @ [CHR 0x27] @
                                           '' is already in use'')))])
                              else (case (if truthy prefix then suggest rx big prefix vms
                                          else Inr []) of
                                      Inl e \<Rightarrow> Inl e
                                    | Inr suggestions \<Rightarrow>
                                        Inr (reply 200
                                          [(''available'', Some (JBool True)),
                                           (''suggestions'',
                                              Some (JArr (map JStr suggestions)))])))))))"

definition check_hostname ::
  "regexp_engine \<Rightarrow> big_numbers \<Rightarrow> json option \<Rightarrow> json option \<Rightarrow> json axios_response
     \<Rightarrow> http_response"
where
  "check_hostname rx big hostname prefix upstream =
     (if \<not> truthy hostname then bad_request ''Hostname is required''
      else (case check_hostname_try rx big hostname prefix upstream of
              Inl e \<Rightarrow> internal_error ''Failed to check hostname''
            | Inr r \<Rightarrow> r))"

text \<open>
  The route with its middleware. \<open>verifyToken\<close> takes the token to be
  \<^verbatim>\<open>req.headers.authorization?.split(' ')[1]\<close> and answers 401 when it is falsy;
  \<open>authorization\<close> is the header, \<open>body\<close> the parsed request body.
\<close>

definition bearer_token :: "string \<Rightarrow> string option" where
  "bearer_token authorization =
     (case dropWhile (\<lambda>c. c \<noteq> CHR '' '') authorization of
        [] \<Rightarrow> None
      | sp # r \<Rightarrow> Some (takeWhile (\<lambda>c. c \<noteq> CHR '' '') r))"

definition verifyToken :: "string option \<Rightarrow> http_response option" where
  "verifyToken authorization =
     (if truthy (map_option JStr (Option.bind authorization bearer_token)) then None
      else Some (reply 401 [(''error'', Some (JStr ''Unauthorized'')),
                            (''message'', Some (JStr ''Authentication token is required''))]))"

definition post_check_hostname ::
  "regexp_engine \<Rightarrow> big_numbers \<Rightarrow> string option \<Rightarrow> json \<Rightarrow> json axios_response
     \<Rightarrow> http_response"
where
  "post_check_hostname rx big authorization body upstream =
     (case verifyToken authorization of
        Some r \<Rightarrow> r
      | None \<Rightarrow>
          (case get_prop (Some body) ''hostname'' of
             Inl e \<Rightarrow> internal_error ''Failed to check hostname''
           | Inr hostname \<Rightarrow>
               check_hostname rx big hostname (property body ''prefix'') upstream))"

subsection \<open>The consumer of the hostname-request topic\<close>

text \<open>
  A message as the handler sees it: its key, and its value after
  \<^verbatim>\<open>JSON.parse(message.value.toString())\<close>, \<open>None\<close> when that throws. What the
  handler does to the outside is the list of messages it hands to \<^verbatim>\<open>producer.send\<close>
  (taken to accept them) and the lines it logs (their fixed text).
\<close>

record kafka_message =
  msg_key :: "string option"
  msg_value :: "json option"

record produced =
  topic :: string
  key :: "string option"
  payload :: json

datatype log_entry = Info string | Error string

record effects =
  sent :: "produced list"
  logged :: "log_entry list"

text \<open>\<^verbatim>\<open>process.env.X || 'default'\<close>\<close>

definition env_or :: "string option \<Rightarrow> string \<Rightarrow> string" where
  "env_or e d = (case e of None \<Rightarrow> d | Some s \<Rightarrow> if s = [] then d else s)"

definition dropped :: "log_entry list \<Rightarrow> string \<Rightarrow> effects" where
  "dropped logs msg = \<lparr>sent = [], logged = logs @ [Error msg]\<rparr>"

text \<open>
  \<open>eachMessage\<close> of the ProxMox service. \<open>response_topic\<close> is
  \<^verbatim>\<open>process.env.KAFKA_TOPIC_HOSTNAME_RESPONSE\<close>, \<open>now\<close> is
  \<^verbatim>\<open>new Date().toISOString()\<close>.
\<close>

definition hostname_eachMessage ::
  "string option \<Rightarrow> string \<Rightarrow> json axios_response \<Rightarrow> kafka_message \<Rightarrow> effects"
where
  "hostname_eachMessage response_topic now upstream message =
     (let failed = dropped [Info ''Processing hostname request''] ''Error processing Kafka message''
      in case msg_value message of
        None \<Rightarrow> dropped [] ''Error processing Kafka message''
      | Some request \<Rightarrow>
          (case get_prop (Some request) ''hostname'' of
             Inl e \<Rightarrow> dropped [] ''Error processing Kafka message''
           | Inr hostname \<Rightarrow>
               (case axios_result upstream of
                  Inl e \<Rightarrow> failed
                | Inr body \<Rightarrow>
                    (case get_prop (Some body) ''data'' of
                       Inl e \<Rightarrow> failed
                     | Inr data \<Rightarrow>
                         (case call_toLowerCase hostname of
                            Inl e \<Rightarrow> failed
                          | Inr normalizedHostname \<Rightarrow>
                              (case as_array data of
                                 Inl e \<Rightarrow> failed
                               | Inr vms \<Rightarrow>
                                   (case hostname_exists vms normalizedHostname of
                                      Inl e \<Rightarrow> failed
                                    | Inr exists \<Rightarrow>
                                        \<lparr>sent =
                                           [\<lparr>topic = env_or response_topic ''hostname-responses'',
                                             key = msg_key message,
                                             payload = obj
                                               [(''requestId'', property request ''requestId''),
                                                (''hostname'', hostname),
                                                (''available'', Some (JBool (\<not> exists))),
                                                (''timestamp'', Some (JStr now))]\<rparr>],
                                         logged =
                                           [Info ''Processing hostname request'',
                                            Info ''Processed hostname request'']\<rparr>)))))))"

section \<open>The IPAM service\<close>

text \<open>
  The requests the service sends to phpIPAM: the login \<^verbatim>\<open>POST /<appId>/user/\<close> and
  \<^verbatim>\<open>GET /<appId>/subnets/<id>/first_free/\<close>, the latter with the text that the template
  literal puts in the place of \<open>id\<close>. phpIPAM answers a request according to the token
  header it carries.
\<close>

datatype ipam_call = PostUser | GetFirstFree string

type_synonym ipam_upstream = "json option \<Rightarrow> ipam_call \<Rightarrow> json axios_response"

text \<open>
  The state of the service: what \<^verbatim>\<open>cache.get('phpipam_token')\<close> returns (node-cache
  empties the entry when its time to live has passed), the \<open>token\<close> default header of the
  client, every request sent upstream with the token header it carried, and the log.
\<close>

record ipam_state =
  cached_token :: "json option"
  header_token :: "json option"
  calls :: "(ipam_call \<times> json option) list"
  ipam_logged :: "log_entry list"

definition ipam_log :: "log_entry \<Rightarrow> ipam_state \<Rightarrow> ipam_state" where
  "ipam_log l st = st\<lparr>ipam_logged := ipam_logged st @ [l]\<rparr>"

text \<open>\<^verbatim>\<open>phpIpamApi.get(path)\<close>: one request, rejected unless the status is 2xx.\<close>

definition phpIpamApi_get ::
  "ipam_upstream \<Rightarrow> ipam_call \<Rightarrow> ipam_state \<Rightarrow> (js_error + json) \<times> ipam_state"
where
  "phpIpamApi_get upstream call st =
     (axios_result (upstream (header_token st) call),
      st\<lparr>calls := calls st @ [(call, header_token st)]\<rparr>)"

text \<open>
  \<open>authenticateIpam\<close>; \<open>api_token\<close> is \<^verbatim>\<open>process.env.PHPIPAM_API_TOKEN\<close>. The login
  request goes through \<open>axios\<close> itself and carries no token header.
\<close>

definition authenticateIpam ::
  "string option \<Rightarrow> ipam_upstream \<Rightarrow> ipam_state \<Rightarrow> (js_error + json option) \<times> ipam_state"
where
  "authenticateIpam api_token upstream st =
     (if truthy (cached_token st)
      then (Inr (cached_token st), st\<lparr>header_token := cached_token st\<rparr>)
      else if truthy (map_option JStr api_token)
      then (Inr (map_option JStr api_token),
            st\<lparr>header_token := map_option JStr api_token,
               cached_token := map_option JStr api_token\<rparr>)
      else
        (let st1 = st\<lparr>calls := calls st @ [(PostUser, None)]\<rparr>;
             failed = (\<lambda>e. (Inl e, ipam_log (Error ''Failed to authenticate with phpIPAM API'') st1))
         in case axios_result (upstream None PostUser) of
              Inl e \<Rightarrow> failed e
            | Inr data \<Rightarrow>
                (case get_prop (Some data) ''data'' of
                   Inl e \<Rightarrow> failed e
                 | Inr d \<Rightarrow>
                     (case get_prop d ''token'' of
                        Inl e \<Rightarrow> failed e
                      | Inr token \<Rightarrow>
                          (Inr token, st1\<lparr>header_token := token, cached_token := token\<rparr>)))))"

text \<open>
  \<^verbatim>\<open>POST /ipam/next-available\<close>, after \<open>verifyToken\<close>; \<open>subnetId\<close> is the property
  read from the request body.
\<close>

definition next_available ::
  "string option \<Rightarrow> ipam_upstream \<Rightarrow> json option \<Rightarrow> ipam_state \<Rightarrow> http_response \<times> ipam_state"
where
  "next_available api_token upstream subnetId st =
     (if \<not> truthy subnetId then (bad_request ''Subnet ID is required'', st)
      else
        (let failed = (\<lambda>s. (internal_error ''Failed to get next available IP address'',
                             ipam_log (Error ''Failed to get next available IP'') s))
         in case authenticateIpam api_token upstream st of
              (Inl e, st1) \<Rightarrow> failed st1
            | (Inr t, st1) \<Rightarrow>
                (case phpIpamApi_get upstream (GetFirstFree (toString subnetId)) st1 of
                   (Inl e, st2) \<Rightarrow> failed st2
                 | (Inr data, st2) \<Rightarrow>
                     (case get_prop (Some data) ''data'' of
                        Inl e \<Rightarrow> failed st2
                      | Inr ip \<Rightarrow>
                          (reply 200 [(''ip'', ip), (''subnetId'', subnetId)], st2)))))"

text \<open>
  \<open>eachMessage\<close> of the IPAM service, on the ip-request topic. \<open>response_topic\<close> is
  \<^verbatim>\<open>process.env.KAFKA_TOPIC_IP_RESPONSE\<close>.
\<close>

definition ip_eachMessage ::
  "string option \<Rightarrow> string option \<Rightarrow> string \<Rightarrow> ipam_upstream \<Rightarrow> kafka_message \<Rightarrow> ipam_state
     \<Rightarrow> produced list \<times> ipam_state"
where
  "ip_eachMessage api_token response_topic now upstream message st =
     (let failed = (\<lambda>s. ([], ipam_log (Error ''Error processing Kafka message'') s))
      in case msg_value message of
           None \<Rightarrow> failed st
         | Some request \<Rightarrow>
             (case get_prop (Some request) ''subnetId'' of
                Inl e \<Rightarrow> failed st
              | Inr subnetId \<Rightarrow>
                  (case authenticateIpam api_token upstream
                          (ipam_log (Info ''Processing IP request for subnet'') st) of
                     (Inl e, st1) \<Rightarrow> failed st1
                   | (Inr t, st1) \<Rightarrow>
                       (case phpIpamApi_get upstream (GetFirstFree (toString subnetId)) st1 of
                          (Inl e, st2) \<Rightarrow> failed st2
                        | (Inr data, st2) \<Rightarrow>
                            (case get_prop (Some data) ''data'' of
                               Inl e \<Rightarrow> failed st2
                             | Inr ip \<Rightarrow>
                                 ([\<lparr>topic = env_or response_topic ''ip-responses'',
                                    key = msg_key message,
                                    payload = obj
                                      [(''requestId'', property request ''requestId''),
                                       (''subnetId'', subnetId),
                                       (''ip'', ip),
                                       (''timestamp'', Some (JStr now))]\<rparr>],
                                  ipam_log (Info ''Processed IP request for subnet'') st2))))))"

section \<open>The kafka-consumer service\<close>

text \<open>
  A second consumer of the two request topics, in a consumer group of its own. It asks the
  ProxMox and the IPAM service over HTTP; \<open>engine\<close> is what that request meets, as a
  function of the body posted. The axios default rejects every status but 2xx.
\<close>

datatype service_call =
    CheckHostname "json option" "json option"
  | CheckIp "json option" "json option"
  | NextAvailable "json option"

definition or_else :: "json option \<Rightarrow> json option \<Rightarrow> json option" where
  "or_else a b = (if truthy a then a else b)"

definition processHostnameRequest ::
  "string option \<Rightarrow> string \<Rightarrow> (service_call \<Rightarrow> json axios_response) \<Rightarrow> kafka_message \<Rightarrow> effects"
where
  "processHostnameRequest response_topic now engine message =
     (case msg_value message of
        None \<Rightarrow> dropped [] ''Error processing hostname request''
      | Some request \<Rightarrow>
          (case get_prop (Some request) ''hostname'' of
             Inl e \<Rightarrow>
               dropped [Info ''Processing hostname request''] ''Error processing hostname request''
           | Inr hostname \<Rightarrow>
               if \<not> truthy hostname
               then dropped [Info ''Processing hostname request'']
                      ''Invalid hostname request: missing hostname''
               else
                 (case axios_result (engine (CheckHostname hostname (property request ''prefix''))) of
                    Inl e \<Rightarrow>
                      dropped [Info ''Processing hostname request'']
                        ''Error processing hostname request''
                  | Inr data \<Rightarrow>
                      (case get_prop (Some data) ''available'' of
                         Inl e \<Rightarrow>
                           dropped [Info ''Processing hostname request'']
                             ''Error processing hostname request''
                       | Inr available \<Rightarrow>
                           \<lparr>sent =
                              [\<lparr>topic = env_or response_topic ''hostname-responses'',
                                key = msg_key message,
                                payload = obj
                                  [(''requestId'', property request ''requestId''),
                                   (''hostname'', hostname),
                                   (''available'', available),
                                   (''suggestions'',
                                      or_else (property data ''suggestions'') (Some (JArr []))),
                                   (''timestamp'', Some (JStr now))]\<rparr>],
                            logged =
                              [Info ''Processing hostname request'',
                               Info ''Processed hostname request'']\<rparr>))))"

definition processIpRequest ::
  "string option \<Rightarrow> string \<Rightarrow> (service_call \<Rightarrow> json axios_response) \<Rightarrow> kafka_message \<Rightarrow> effects"
where
  "processIpRequest response_topic now engine message =
     (case msg_value message of
        None \<Rightarrow> dropped [] ''Error processing IP request''
      | Some request \<Rightarrow>
          (case get_prop (Some request) ''subnetId'' of
             Inl e \<Rightarrow> dropped [Info ''Processing IP request''] ''Error processing IP request''
           | Inr subnetId \<Rightarrow>
               if \<not> truthy subnetId
               then dropped [Info ''Processing IP request'']
                      ''Invalid IP request: missing subnetId''
               else
                 (case axios_result
                         (engine (if truthy (property request ''ip'')
                                  then CheckIp (property request ''ip'') subnetId
                                  else NextAvailable subnetId)) of
                    Inl e \<Rightarrow> dropped [Info ''Processing IP request''] ''Error processing IP request''
                  | Inr data \<Rightarrow>
                      (case get_prop (Some data) ''ip'' of
                         Inl e \<Rightarrow>
                           dropped [Info ''Processing IP request''] ''Error processing IP request''
                       | Inr ip \<Rightarrow>
                           \<lparr>sent =
                              [\<lparr>topic = env_or response_topic ''ip-responses'',
                                key = msg_key message,
                                payload = obj
                                  [(''requestId'', property request ''requestId''),
                                   (''subnetId'', subnetId),
                                   (''ip'', or_else (property request ''ip'') ip),
                                   (''available'',
                                      (case property data ''available'' of
                                         None \<Rightarrow> Some (JBool True)
                                       | Some a \<Rightarrow> Some a)),
                                   (''timestamp'', Some (JStr now))]\<rparr>],
                            logged =
                              [Info ''Processing IP request'',
                               Info ''Processed IP request for subnet'']\<rparr>))))"

text \<open>
  The services as this consumer calls them: \<^verbatim>\<open>axios.post(url, body)\<close> sets no
  \<open>Authorization\<close> header, and every route of both services has \<open>verifyToken\<close> before its
  handler.
\<close>

definition behind_verifyToken ::
  "string option \<Rightarrow> (service_call \<Rightarrow> http_response) \<Rightarrow> service_call \<Rightarrow> json axios_response"
where
  "behind_verifyToken authorization handler call =
     (let r = (case verifyToken authorization of Some r \<Rightarrow> r | None \<Rightarrow> handler call)
      in Response (status_code r) (json_body r))"

section \<open>Suggestion numbering as the specification words it\<close>

text \<open>
  The number a name carries when it is literally of the form \<open><prefix><digits>\<close>, compared
  without regard to case; the largest of them over the existing names (0 when there is
  none); and the three candidates that follow it.
\<close>

definition literal_number :: "string \<Rightarrow> string \<Rightarrow> nat option" where
  "literal_number prefix nm =
     (if toLowerCase (take (length prefix) nm) = toLowerCase prefix \<and>
         all_digits (drop (length prefix) nm)
      then Some (foldl (\<lambda>a c. a * 10 + digit_value c) 0 (drop (length prefix) nm))
      else None)"

definition literal_max :: "string \<Rightarrow> string list \<Rightarrow> nat" where
  "literal_max prefix names = foldr max (List.map_filter (literal_number prefix) names) 0"

definition literal_suggestions :: "string \<Rightarrow> string list \<Rightarrow> string list" where
  "literal_suggestions prefix names =
     map (\<lambda>i. prefix @ digits10 (literal_max prefix names + i)) [1, 2, 3]"

section \<open>Case-insensitive comparison as the specification words it\<close>

text \<open>
  The name an entry of the inventory carries, when it carries one. Two code units are the
  same letter when they are equal or one is a capital and the other its small form; two
  names are equal under case-insensitive comparison when they are so letter by letter.
\<close>

definition entry_name :: "json \<Rightarrow> string option" where
  "entry_name v = (case property v ''name'' of Some (JStr n) \<Rightarrow> Some n | _ \<Rightarrow> None)"

definition capital :: "char \<Rightarrow> bool" where
  "capital c =
     (let n = (of_char c :: nat) in (65 \<le> n \<and> n \<le> 90) \<or> (192 \<le> n \<and> n \<le> 214) \<or> (216 \<le> n \<and> n \<le> 222))"

definition same_letter :: "char \<Rightarrow> char \<Rightarrow> bool" where
  "same_letter x y =
     (x = y \<or> (capital x \<and> (of_char y :: nat) = of_char x + 32)
            \<or> (capital y \<and> (of_char x :: nat) = of_char y + 32))"

definition equal_ignoring_case :: "string \<Rightarrow> string \<Rightarrow> bool" where
  "equal_ignoring_case a b = list_all2 same_letter a b"

text \<open>
  An entry that can take part in the numbering for a prefix: one whose name begins with
  the prefix, or one that carries no name.
\<close>

definition may_count :: "string \<Rightarrow> json \<Rightarrow> bool" where
  "may_count p v =
     (case entry_name v of
        None \<Rightarrow> True
      | Some n \<Rightarrow> startsWith (toLowerCase n) (toLowerCase p))"

section \<open>Example data\<close>

definition vm :: "string \<Rightarrow> json" where
  "vm n = JObj [(''vmid'', JNum 100), (''name'', JStr n), (''node'', JStr ''pve1''),
                (''status'', JStr ''running'')]"

definition inventory :: "string list \<Rightarrow> json" where
  "inventory names = JObj [(''data'', JArr (map vm names))]"

definition nameless_vm :: json where
  "nameless_vm = JObj [(''vmid'', JNum 101), (''node'', JStr ''pve1''), (''status'', JStr ''stopped'')]"

definition fresh_state :: ipam_state where
  "fresh_state = \<lparr>cached_token = None, header_token = None, calls = [], ipam_logged = []\<rparr>"

definition hostname_request :: "string \<Rightarrow> string \<Rightarrow> string \<Rightarrow> kafka_message" where
  "hostname_request rid h p =
     \<lparr>msg_key = Some ''k1'',
      msg_value = Some (JObj [(''requestId'', JStr rid), (''hostname'', JStr h),
                              (''prefix'', JStr p)])\<rparr>"

definition ip_request :: "(string \<times> json) list \<Rightarrow> kafka_message" where
  "ip_request kvs = \<lparr>msg_key = Some ''k1'', msg_value = Some (JObj kvs)\<rparr>"

definition first_free_is :: "string \<Rightarrow> ipam_upstream" where
  "first_free_is ip = (\<lambda>token call. Response 200 (JObj [(''data'', JStr ip)]))"

definition login_then_401 :: ipam_upstream where
  "login_then_401 =
     (\<lambda>token call.
        case call of
          PostUser \<Rightarrow> Response 200 (JObj [(''data'', JObj [(''token'', JStr ''t1'')])])
        | GetFirstFree i \<Rightarrow> Response 401 JNull)"

definition no_free_address :: ipam_upstream where
  "no_free_address =
     (\<lambda>token call.
        Response 404 (JObj [(''code'', JNum 404), (''success'', JBool False),
                            (''message'', JStr ''No free addresses found'')]))"

definition unreachable :: ipam_upstream where
  "unreachable = (\<lambda>token call. NoResponse)"

section \<open>Basic facts\<close>

lemma json_body_reply [simp]: "json_body (reply st kvs) = obj kvs"
  by (simp add: reply_def)

lemma status_code_reply [simp]: "status_code (reply st kvs) = st"
  by (simp add: reply_def)

lemma property_obj_Nil [simp]: "property (obj []) f = None"
  by (simp add: obj_def List.map_filter_simps)

lemma property_obj_Cons [simp]:
  "property (obj ((k, v) # kvs)) f = (if f = k \<and> v \<noteq> None then v else property (obj kvs) f)"
  by (cases v) (auto simp: obj_def List.map_filter_simps)

lemma get_prop_Some:
  "get_prop (Some r) f = (if r = JNull then Inl TypeError else Inr (property r f))"
  by (cases r) simp_all

lemma get_prop_of_object:
  assumes "property request f = Some v"
  shows "get_prop (Some request) g = Inr (property request g)"
  using assms by (cases request) simp_all

lemma entry_name_Some:
  assumes "entry_name v = Some n"
  shows "get_prop (Some v) ''name'' = Inr (Some (JStr n))"
proof -
  from assms have "property v ''name'' = Some (JStr n)"
    by (auto simp: entry_name_def split: option.splits json.splits)
  then show ?thesis
    using get_prop_of_object [of v "''name''" "JStr n" "''name''"] by simp
qed

section \<open>Letters\<close>

lemma of_char_lower_char:
  "(of_char (lower_char c) :: nat) =
     (if has_lower (of_char c) then of_char c + 32 else of_char c)"
proof (cases "has_lower (of_char c)")
  case True
  then have "(of_char c + 32) mod 256 = (of_char c :: nat) + 32"
    by (intro mod_less) (auto simp: has_lower_def)
  with True show ?thesis by (simp add: lower_char_def)
next
  case False
  then show ?thesis by (simp add: lower_char_def)
qed

lemma capital_iff: "capital c = has_lower (of_char c)"
  by (auto simp: capital_def has_lower_def Let_def)

lemma has_lower_shift: "has_lower a \<Longrightarrow> \<not> has_lower (a + 32)"
  by (auto simp: has_lower_def)

lemma same_letter_iff: "same_letter x y = (lower_char x = lower_char y)"
proof -
  have l: "(lower_char x = lower_char y)
             = ((of_char (lower_char x) :: nat) = of_char (lower_char y))"
    by simp
  have e: "(x = y) = ((of_char x :: nat) = of_char y)"
    by simp
  show ?thesis
  proof (cases "has_lower (of_char x)")
    case hx: True
    show ?thesis
    proof (cases "has_lower (of_char y)")
      case True
      with hx show ?thesis
        unfolding same_letter_def capital_iff l e of_char_lower_char
        using has_lower_shift [of "of_char x"] has_lower_shift [of "of_char y"] by auto
    next
      case False
      with hx show ?thesis
        unfolding same_letter_def capital_iff l e of_char_lower_char by auto
    qed
  next
    case nx: False
    show ?thesis
    proof (cases "has_lower (of_char y)")
      case True
      with nx show ?thesis
        unfolding same_letter_def capital_iff l e of_char_lower_char by auto
    next
      case False
      with nx show ?thesis
        unfolding same_letter_def capital_iff l e of_char_lower_char by auto
    qed
  qed
qed

lemma equal_ignoring_case_iff:
  "equal_ignoring_case a b = (toLowerCase a = toLowerCase b)"
proof (induction a arbitrary: b)
  case Nil
  then show ?case by (simp add: equal_ignoring_case_def toLowerCase_def)
next
  case (Cons x a)
  then show ?case
    by (cases b) (auto simp: equal_ignoring_case_def toLowerCase_def same_letter_iff)
qed

lemma canonicalize_lower_char: "canonicalize (lower_char c) = canonicalize c"
  unfolding canonicalize_def Let_def of_char_lower_char
  by (auto simp: has_lower_def)

lemma lower_char_of_canonicalize:
  "(of_char (lower_char c) :: nat) =
     (\<lambda>m. if has_lower m then m + 32 else if m = 376 then 255 else if m = 924 then 181 else m)
       (canonicalize c)"
proof -
  have "(of_char c :: nat) < 256"
    by simp
  then have b: "(of_char c :: nat) \<noteq> 376" "(of_char c :: nat) \<noteq> 924"
    by linarith+
  show ?thesis
    unfolding canonicalize_def Let_def of_char_lower_char
    using b by (auto simp: has_lower_def)
qed

lemma canonicalize_eq_iff: "(canonicalize x = canonicalize y) = (lower_char x = lower_char y)"
proof
  assume "canonicalize x = canonicalize y"
  then have "(of_char (lower_char x) :: nat) = of_char (lower_char y)"
    by (simp only: lower_char_of_canonicalize)
  then show "lower_char x = lower_char y" by simp
next
  assume "lower_char x = lower_char y"
  then show "canonicalize x = canonicalize y"
    using canonicalize_lower_char [of x] canonicalize_lower_char [of y] by simp
qed

lemma map_canonicalize_eq_iff:
  "(map canonicalize a = map canonicalize b) = (toLowerCase a = toLowerCase b)"
proof (induction a arbitrary: b)
  case Nil
  then show ?case by (simp add: toLowerCase_def)
next
  case (Cons x a)
  then show ?case
    by (cases b) (auto simp: toLowerCase_def canonicalize_eq_iff)
qed

section \<open>An inventory whose entries all carry a name\<close>

lemma hostname_exists_named:
  assumes "map entry_name vms = map Some names"
  shows "hostname_exists vms l = Inr (\<exists>n\<in>set names. toLowerCase n = l)"
  using assms
proof (induction vms arbitrary: names)
  case Nil
  then show ?case by simp
next
  case (Cons v vms)
  then obtain n ns where names: "names = n # ns" and v: "entry_name v = Some n"
    and rest: "map entry_name vms = map Some ns"
    by (cases names) auto
  show ?case
    using Cons.IH [OF rest] entry_name_Some [OF v] names by auto
qed

lemma existing_prefix_names_named:
  assumes "map entry_name vms = map Some names"
  shows "existing_prefix_names vms l = Inr (filter (\<lambda>n. startsWith (toLowerCase n) l) names)"
  using assms
proof (induction vms arbitrary: names)
  case Nil
  then show ?case by simp
next
  case (Cons v vms)
  then obtain n ns where names: "names = n # ns" and v: "entry_name v = Some n"
    and rest: "map entry_name vms = map Some ns"
    by (cases names) auto
  show ?case
    using Cons.IH [OF rest] entry_name_Some [OF v] names by (simp add: toString_def)
qed

lemma map_entry_name_vm: "map entry_name (map vm names) = map Some names"
  by (induction names) (simp_all add: entry_name_def vm_def)

section \<open>Hostname availability\<close>

lemma check_hostname_available_field:
  assumes "validateStatus st" and "property body ''data'' = Some (JArr vms)"
    and "map entry_name vms = map Some names" and "[] \<notin> set names"
  shows "(property (json_body (check_hostname rx big (Some (JStr h)) prefix (Response st body)))
            ''available'' = Some (JBool False))
         = (\<exists>n\<in>set names. equal_ignoring_case n h)"
proof (cases "h = []")
  case True
  have "\<not> (\<exists>n\<in>set names. equal_ignoring_case n h)"
    using True assms(4) by (auto simp: equal_ignoring_case_def)
  then show ?thesis
    using True by (simp add: check_hostname_def bad_request_def)
next
  case False
  have d: "get_prop (Some body) ''data'' = Inr (Some (JArr vms))"
    using get_prop_of_object [OF assms(2), of "''data''"] assms(2) by simp
  show ?thesis
    using False assms(1) d hostname_exists_named [OF assms(3)]
    by (auto simp: check_hostname_def check_hostname_try_def equal_ignoring_case_iff
          internal_error_def split: sum.splits)
qed

lemma hostname_eachMessage_available_field:
  assumes "validateStatus st" and "property body ''data'' = Some (JArr vms)"
    and "map entry_name vms = map Some names"
    and "msg_value message = Some request" and "property request ''hostname'' = Some (JStr h)"
  shows "\<exists>p. sent (hostname_eachMessage tp now (Response st body) message) = [p] \<and>
           ((property (payload p) ''available'' = Some (JBool False))
            = (\<exists>n\<in>set names. equal_ignoring_case n h))"
proof -
  have d: "get_prop (Some body) ''data'' = Inr (Some (JArr vms))"
    using get_prop_of_object [OF assms(2), of "''data''"] assms(2) by simp
  have r: "get_prop (Some request) ''hostname'' = Inr (Some (JStr h))"
    using get_prop_of_object [OF assms(5), of "''hostname''"] assms(5) by simp
  show ?thesis
    using assms(1,4) d r hostname_exists_named [OF assms(3)]
    by (auto simp: hostname_eachMessage_def equal_ignoring_case_iff Let_def)
qed

text \<open>
  Case is folded beyond \<open>A\<close> to \<open>Z\<close>: the hostname \<^verbatim>\<open>SRV-\<close> followed by U+00C9 is taken
  when the inventory lists \<^verbatim>\<open>srv-\<close> followed by U+00E9.
\<close>

lemma accented_capital_is_taken:
  "check_hostname rx big (Some (JStr (''SRV-'' @ [CHR 0xC9]))) None
     (Response 200 (inventory [''srv-'' @ [CHR 0xE9]]))
   = reply 200 [(''available'', Some (JBool False)),
       (''message'', Some (JStr (''Hostname '' @ [CHR 0x27] @ ''SRV-'' @ [CHR 0xC9, CHR 0x27] @
          '' is already in use'')))]"
  by code_simp

text \<open>
  C1, as stated, fails: the inventory lists an entry without a name and then the host
  \<open>web3\<close>. For the hostname \<open>web3\<close> the check throws at the first entry: the HTTP path
  answers 500 and the consumer publishes nothing, though a host of that name exists.
\<close>

theorem nameless_entry_fails_the_check:
  "check_hostname (RegExp_match (\<lambda>s n. NoMatch)) (\<lambda>p ns. Inr []) (Some (JStr ''web3'')) None
     (Response 200 (JObj [(''data'', JArr [nameless_vm, vm ''web3''])]))
   = \<lparr>status_code = 500,
      json_body = JObj [(''error'', JStr ''Internal Server Error''),
        (''message'', JStr ''Failed to check hostname'')]\<rparr>
   \<and> hostname_eachMessage None ''2024-01-01T00:00:00.000Z''
       (Response 200 (JObj [(''data'', JArr [nameless_vm, vm ''web3''])]))
       (hostname_request ''r1'' ''web3'' ''web'')
     = \<lparr>sent = [],
        logged = [Info ''Processing hostname request'', Error ''Error processing Kafka message'']\<rparr>"
  by code_simp

text \<open>
  C1, amended. For every hostname \<open>h\<close> and every inventory whose entries all carry a name
  (a non-empty string), both \<^verbatim>\<open>POST /proxmox/check-hostname\<close> and the consumer of the
  hostname-request topic report \<open>available: false\<close> exactly when the name of some host
  equals \<open>h\<close> under case-insensitive comparison.
\<close>

theorem unavailable_iff_name_taken:
  assumes "validateStatus st" and "property body ''data'' = Some (JArr vms)"
    and "map entry_name vms = map Some names" and "[] \<notin> set names"
  shows "(property (json_body (check_hostname rx big (Some (JStr h)) prefix (Response st body)))
            ''available'' = Some (JBool False))
         = (\<exists>n\<in>set names. equal_ignoring_case n h)
       \<and> (msg_value message = Some request \<and> property request ''hostname'' = Some (JStr h) \<longrightarrow>
            (\<exists>p. sent (hostname_eachMessage tp now (Response st body) message) = [p] \<and>
               ((property (payload p) ''available'' = Some (JBool False))
                = (\<exists>n\<in>set names. equal_ignoring_case n h))))"
  using check_hostname_available_field [OF assms]
    hostname_eachMessage_available_field [OF assms(1,2,3)]
  by blast

theorem unavailable_iff_name_taken_witness:
  "validateStatus 200 \<and> [] \<notin> set [''web3'', ''web7'', ''webX''] \<and>
   property (json_body (check_hostname (RegExp_match (\<lambda>s n. NoMatch)) (\<lambda>p ns. Inr [])
       (Some (JStr ''WEB3'')) (Some (JStr ''web''))
       (Response 200 (inventory [''web3'', ''web7'', ''webX''])))) ''available''
     = Some (JBool False) \<and>
   (\<exists>p. sent (hostname_eachMessage None ''2024-01-01T00:00:00.000Z''
            (Response 200 (inventory [''web3'', ''web7'', ''webX'']))
            (hostname_request ''r1'' ''WEB3'' ''web'')) = [p] \<and>
        property (payload p) ''available'' = Some (JBool False))"
proof -
  let ?names = "[''web3'', ''web7'', ''webX'']"
  let ?request = "JObj [(''requestId'', JStr ''r1''), (''hostname'', JStr ''WEB3''),
                        (''prefix'', JStr ''web'')]"
  have v: "validateStatus 200"
    by (simp add: validateStatus_def)
  have b: "property (inventory ?names) ''data'' = Some (JArr (map vm ?names))"
    by (simp add: inventory_def)
  have e: "map entry_name (map vm ?names) = map Some ?names"
    by (rule map_entry_name_vm)
  have ne: "[] \<notin> set ?names"
    by simp
  have taken: "\<exists>n\<in>set ?names. equal_ignoring_case n ''WEB3''"
    by code_simp
  have m: "msg_value (hostname_request ''r1'' ''WEB3'' ''web'') = Some ?request \<and>
           property ?request ''hostname'' = Some (JStr ''WEB3'')"
    by (simp add: hostname_request_def)
  show ?thesis
    using v ne taken m
      unavailable_iff_name_taken [OF v b e ne, where h = "''WEB3''"
        and rx = "RegExp_match (\<lambda>s n. NoMatch)" and big = "\<lambda>p ns. Inr []"
        and prefix = "Some (JStr ''web'')"
        and message = "hostname_request ''r1'' ''WEB3'' ''web''" and request = ?request
        and tp = None and now = "''2024-01-01T00:00:00.000Z''"]
    by auto
qed

section \<open>Suggestions\<close>

lemma taken_hostname_reply:
  assumes "validateStatus st" and "property body ''data'' = Some (JArr vms)"
    and "map entry_name vms = map Some names"
    and "\<exists>n\<in>set names. toLowerCase n = toLowerCase h" and "h \<noteq> []"
  shows "check_hostname rx big (Some (JStr h)) prefix (Response st body) =
           reply 200 [(''available'', Some (JBool False)),
                      (''message'', Some (JStr (''Hostname '' @ [CHR 0x27] @ h @ [CHR 0x27] @
                            '' is already in use'')))]"
proof -
  have d: "get_prop (Some body) ''data'' = Inr (Some (JArr vms))"
    using get_prop_of_object [OF assms(2), of "''data''"] assms(2) by simp
  show ?thesis
    using assms(1,4,5) d hostname_exists_named [OF assms(3)]
    by (simp add: check_hostname_def check_hostname_try_def toString_def)
qed

lemma free_hostname_without_prefix:
  assumes "validateStatus st" and "property body ''data'' = Some (JArr vms)"
    and "map entry_name vms = map Some names"
    and "\<not> (\<exists>n\<in>set names. toLowerCase n = toLowerCase h)"
    and "h \<noteq> []" and "\<not> truthy prefix"
  shows "check_hostname rx big (Some (JStr h)) prefix (Response st body) =
           reply 200 [(''available'', Some (JBool True)), (''suggestions'', Some (JArr []))]"
proof -
  have d: "get_prop (Some body) ''data'' = Inr (Some (JArr vms))"
    using get_prop_of_object [OF assms(2), of "''data''"] assms(2) by simp
  show ?thesis
    using assms(1,4,5,6) d hostname_exists_named [OF assms(3)]
    by (simp add: check_hostname_def check_hostname_try_def)
qed

subsection \<open>The numbering, for a prefix without metacharacters\<close>

lemma parse_body_plain:
  assumes "\<not> list_ex (\<lambda>c. is_quantifier c \<or> c = CHR ''.'') p"
  shows "parse_body p = Some (map (\<lambda>c. (AChar c, One)) p)"
  using assms
  by (induction p rule: parse_body.induct) (auto simp: atom_of_def)

lemma match_terms_plain:
  "match_terms (map (\<lambda>c. (AChar c, One)) p) s =
     (if length p \<le> length s \<and> map canonicalize (take (length p) s) = map canonicalize p
      then [drop (length p) s] else [])"
proof (induction p arbitrary: s)
  case Nil
  then show ?case by simp
next
  case (Cons c p)
  show ?case
  proof (cases s)
    case Nil
    then show ?thesis by simp
  next
    case (Cons x xs)
    then show ?thesis
      using Cons.IH [of xs] by (auto simp del: match_terms.simps(2) simp add: match_terms.simps(2))
  qed
qed

lemma source_shape:
  "in_fragment (regexp_source p) = (\<not> list_ex outside_fragment p)"
  "take (length (regexp_source p) - 7) (drop 1 (regexp_source p)) = p"
  by (simp_all add: in_fragment_def regexp_source_def digits_group_def)

lemma RegExp_match_plain:
  assumes "plain_prefix p"
  shows "RegExp_match rest (regexp_source p) nm =
           (if toLowerCase (take (length p) nm) = toLowerCase p \<and> all_digits (drop (length p) nm)
            then Match (Some (drop (length p) nm)) else NoMatch)"
proof -
  have frag: "in_fragment (regexp_source p)"
    using assms by (auto simp: source_shape(1) plain_prefix_def list_ex_iff)
  have parse: "parse_body p = Some (map (\<lambda>c. (AChar c, One)) p)"
    using assms by (intro parse_body_plain) (auto simp: plain_prefix_def list_ex_iff)
  have run: "RegExp_match rest (regexp_source p) nm =
               (case find all_digits (match_terms (map (\<lambda>c. (AChar c, One)) p) nm) of
                  None \<Rightarrow> NoMatch | Some r \<Rightarrow> Match (Some r))"
    unfolding RegExp_match_def source_shape(2) parse using frag by simp
  show ?thesis
  proof (cases "length p \<le> length nm \<and> toLowerCase (take (length p) nm) = toLowerCase p")
    case True
    then have "match_terms (map (\<lambda>c. (AChar c, One)) p) nm = [drop (length p) nm]"
      unfolding match_terms_plain map_canonicalize_eq_iff by simp
    then show ?thesis
      unfolding run using True by simp
  next
    case False
    then have "match_terms (map (\<lambda>c. (AChar c, One)) p) nm = []"
      unfolding match_terms_plain map_canonicalize_eq_iff by simp
    moreover have "\<not> all_digits (drop (length p) nm)" if "\<not> length p \<le> length nm"
      using that by (simp add: all_digits_def)
    ultimately show ?thesis
      unfolding run using False by auto
  qed
qed

lemma digit_facts:
  assumes "is_digit c"
  shows "\<not> is_space c" "c \<noteq> CHR ''-''" "c \<noteq> CHR ''+''" "c \<noteq> CHR ''x''" "c \<noteq> CHR ''X''"
    "digit_value c < 10" "digit_value c < 16"
  using assms by (auto simp: is_digit_def is_space_def digit_value_def)

lemma parseInt_digits:
  assumes "all_digits d"
  shows "parseInt d =
           (if exact (int (foldl (\<lambda>a c. a * 10 + digit_value c) 0 d))
            then Num (int (foldl (\<lambda>a c. a * 10 + digit_value c) 0 d)) else Inexact)"
proof -
  from assms obtain x xs where d: "d = x # xs" and x: "is_digit x" and xs: "list_all is_digit xs"
    by (cases d) (auto simp: all_digits_def)
  have nohex: "take 2 d \<noteq> ''0x''" "take 2 d \<noteq> ''0X''"
    using d xs by (cases xs; auto dest: digit_facts)+
  have all: "takeWhile (\<lambda>c. digit_value c < 10) d = d"
    using d x xs by (auto simp: takeWhile_eq_all_conv list_all_iff dest: digit_facts)
  have sp: "dropWhile is_space d = d"
    using d x by (simp add: digit_facts)
  have sign: "take 1 d \<noteq> ''-''" "take 1 d \<noteq> ''+''"
    using d x by (auto dest: digit_facts)
  have ne: "d \<noteq> []" using d by simp
  have "parseInt d =
          (if takeWhile (\<lambda>c. digit_value c < 10) d = [] then NaN
           else if exact (int (foldl (\<lambda>a c. a * 10 + digit_value c) 0
                  (takeWhile (\<lambda>c. digit_value c < 10) d)))
           then Num (int (foldl (\<lambda>a c. a * 10 + digit_value c) 0
                  (takeWhile (\<lambda>c. digit_value c < 10) d)))
           else Inexact)"
    unfolding parseInt_def Let_def sp
    using nohex sign by (simp del: takeWhile_eq_all_conv takeWhile_eq_Nil_iff)
  then show ?thesis
    unfolding all using ne by simp
qed

lemma literal_number_Some_startsWith:
  assumes "literal_number p nm = Some k"
  shows "startsWith (toLowerCase nm) (toLowerCase p)"
  using assms
  by (auto simp: literal_number_def startsWith_def toLowerCase_def take_map split: if_splits)

lemma literal_max_Cons:
  "literal_max p (n # names) =
     (case literal_number p n of None \<Rightarrow> literal_max p names
      | Some k \<Rightarrow> max k (literal_max p names))"
  by (simp add: literal_max_def List.map_filter_simps split: option.splits)

lemma highest_number_plain:
  assumes "plain_prefix p" and "0 \<le> m" and "int (literal_max p names) \<le> 2 ^ 53"
  shows "highest_number (RegExp_match rest) p names m
           = Inr (Some (max m (int (literal_max p names))))"
  using assms(2,3)
proof (induction names arbitrary: m)
  case Nil
  then show ?case by (simp add: literal_max_def List.map_filter_simps)
next
  case (Cons n names)
  show ?case
  proof (cases "literal_number p n")
    case None
    then have "RegExp_match rest (regexp_source p) n = NoMatch"
      using assms(1) by (auto simp: RegExp_match_plain literal_number_def split: if_splits)
    moreover have "literal_max p (n # names) = literal_max p names"
      using None by (simp add: literal_max_Cons)
    ultimately show ?thesis
      using Cons.IH [of m] Cons.prems by simp
  next
    case (Some k)
    then have d: "all_digits (drop (length p) n)"
      and k: "k = foldl (\<lambda>a c. a * 10 + digit_value c) 0 (drop (length p) n)"
      and m: "RegExp_match rest (regexp_source p) n = Match (Some (drop (length p) n))"
      using assms(1) by (auto simp: RegExp_match_plain literal_number_def split: if_splits)
    have step: "literal_max p (n # names) = max k (literal_max p names)"
      using Some by (simp add: literal_max_Cons)
    have ne: "drop (length p) n \<noteq> []" using d by (simp add: all_digits_def)
    have kb: "int k \<le> 2 ^ 53" and tb: "int (literal_max p names) \<le> 2 ^ 53"
      using Cons.prems(2) unfolding step by simp_all
    have ex: "exact (int k)"
      using kb by (simp add: exact_def)
    have pi: "parseInt (drop (length p) n) = Num (int k)"
      using parseInt_digits [OF d] k ex by simp
    have "highest_number (RegExp_match rest) p (n # names) m
            = highest_number (RegExp_match rest) p names (if m < int k then int k else m)"
      using m ne pi by simp
    also have "\<dots> = Inr (Some (max (if m < int k then int k else m)
                                  (int (literal_max p names))))"
      using Cons.prems(1) tb by (intro Cons.IH) simp_all
    also have "max (if m < int k then int k else m) (int (literal_max p names))
                 = max m (int (literal_max p (n # names)))"
      unfolding step by (simp add: max_def)
    finally show ?thesis .
  qed
qed

lemma literal_max_filter:
  "literal_max p (filter (\<lambda>n. startsWith (toLowerCase n) (toLowerCase p)) names)
     = literal_max p names"
proof (induction names)
  case Nil
  then show ?case by simp
next
  case (Cons n names)
  show ?case
  proof (cases "startsWith (toLowerCase n) (toLowerCase p)")
    case True
    then show ?thesis using Cons by (simp add: literal_max_Cons split: option.splits)
  next
    case False
    then have "literal_number p n = None"
      using literal_number_Some_startsWith [of p n] by (cases "literal_number p n") auto
    then show ?thesis using Cons False by (simp add: literal_max_Cons)
  qed
qed

lemma suggest_plain:
  assumes "plain_prefix p" and "map entry_name vms = map Some names"
    and "int (literal_max p names) + 3 \<le> 2 ^ 53"
  shows "suggest (RegExp_match rest) big (Some (JStr p)) vms = Inr (literal_suggestions p names)"
proof -
  let ?names = "filter (\<lambda>n. startsWith (toLowerCase n) (toLowerCase p)) names"
  have b: "int (literal_max p ?names) \<le> 2 ^ 53"
    using assms(3) by (simp add: literal_max_filter)
  have h: "highest_number (RegExp_match rest) p ?names 0
             = Inr (Some (int (literal_max p names)))"
    using highest_number_plain [OF assms(1) _ b, of 0 rest] by (simp add: literal_max_filter)
  have e: "exact (int (literal_max p names) + 3)"
    using assms(3) by (simp add: exact_def)
  have n: "Number_toString (int k + i) = digits10 (k + nat i)" if "0 \<le> i" for k i
    using that by (simp add: Number_toString_def nat_add_distrib)
  show ?thesis
    unfolding suggest_def literal_suggestions_def
    by (simp add: toString_def existing_prefix_names_named [OF assms(2)] h e n)
qed

lemma free_hostname_with_plain_prefix:
  assumes "validateStatus st" and "property body ''data'' = Some (JArr vms)"
    and "map entry_name vms = map Some names"
    and "h \<noteq> []" and "plain_prefix p"
    and "\<not> (\<exists>n\<in>set names. toLowerCase n = toLowerCase h)"
    and "int (literal_max p names) + 3 \<le> 2 ^ 53"
  shows "check_hostname (RegExp_match rest) big (Some (JStr h)) (Some (JStr p)) (Response st body)
           = reply 200 [(''available'', Some (JBool True)),
               (''suggestions'', Some (JArr (map JStr (literal_suggestions p names))))]"
proof -
  have d: "get_prop (Some body) ''data'' = Inr (Some (JArr vms))"
    using get_prop_of_object [OF assms(2), of "''data''"] assms(2) by simp
  show ?thesis
    using assms(1,4,5,6) d hostname_exists_named [OF assms(3)]
      suggest_plain [OF assms(5,3,7), of rest big]
    by (simp add: check_hostname_def check_hostname_try_def plain_prefix_def)
qed

text \<open>
  C2. The claim asks for the three suggestions when the hostname is taken and a prefix is
  given. The handler returns as soon as it has found the name in use, before the
  suggestions block: with the VMs \<open>web3\<close>, \<open>web7\<close> and \<open>webX\<close>, the taken name
  \<open>web3\<close> and the prefix \<open>web\<close>, the reply is \<open>available: false\<close> with a message and
  no \<open>suggestions\<close> property. (\<open>taken_hostname_reply\<close> above is the same for every
  taken name and every prefix; \<open>free_hostname_with_plain_prefix\<close> shows the numbering of
  the claim in the replies for a free name, for numbers that stay exact.)
\<close>

theorem taken_hostname_gets_no_suggestions:
  "check_hostname (RegExp_match rest) big (Some (JStr ''web3'')) (Some (JStr ''web''))
     (Response 200 (inventory [''web3'', ''web7'', ''webX'']))
   = \<lparr>status_code = 200,
      json_body = JObj [(''available'', JBool False),
        (''message'', JStr (''Hostname '' @ [CHR 0x27] @ ''web3'' @ [CHR 0x27] @
            '' is already in use''))]\<rparr>"
  by code_simp

text \<open>
  C3. The claim asks for no suggestions when the hostname is free. The suggestions block
  runs exactly then: with the same VMs, the free name \<open>db1\<close> and the prefix \<open>web\<close>,
  the reply is \<open>available: true\<close> with the suggestions \<open>web8\<close>, \<open>web9\<close>, \<open>web10\<close>.
\<close>

theorem free_hostname_gets_suggestions:
  "check_hostname (RegExp_match rest) big (Some (JStr ''db1'')) (Some (JStr ''web''))
     (Response 200 (inventory [''web3'', ''web7'', ''webX'']))
   = \<lparr>status_code = 200,
      json_body = JObj [(''available'', JBool True),
        (''suggestions'', JArr [JStr ''web8'', JStr ''web9'', JStr ''web10''])]\<rparr>"
  by code_simp

text \<open>
  C4. The request \<open>{requestId: r1, hostname: web5, prefix: web}\<close> against the VMs
  \<open>web1\<close> to \<open>web7\<close>: the consumer of the ProxMox service never reads \<open>prefix\<close>, and
  the message it publishes has \<open>requestId\<close>, \<open>hostname\<close>, \<open>available: false\<close> and
  \<open>timestamp\<close>, with no \<open>suggestions\<close> property.
\<close>

theorem hostname_response_has_no_suggestions:
  "hostname_eachMessage None ''2024-01-01T00:00:00.000Z''
     (Response 200
        (inventory [''web1'', ''web2'', ''web3'', ''web4'', ''web5'', ''web6'', ''web7'']))
     (hostname_request ''r1'' ''web5'' ''web'')
   = \<lparr>sent =
        [\<lparr>topic = ''hostname-responses'', key = Some ''k1'',
          payload = JObj [(''requestId'', JStr ''r1''), (''hostname'', JStr ''web5''),
            (''available'', JBool False),
            (''timestamp'', JStr ''2024-01-01T00:00:00.000Z'')]\<rparr>],
      logged = [Info ''Processing hostname request'', Info ''Processed hostname request'']\<rparr>"
  by code_simp

text \<open>
  The kafka-consumer service on the same request: it never gets past \<open>verifyToken\<close>,
  whatever the handler behind it, and were the handler of the ProxMox service to answer
  it, the suggestions it relays would be empty.
\<close>

lemma sibling_is_unauthorized:
  "sent (processHostnameRequest tp now (behind_verifyToken None handler) message) = []"
  "sent (processIpRequest tp now (behind_verifyToken None handler) message) = []"
  by (auto simp: processHostnameRequest_def processIpRequest_def behind_verifyToken_def
        verifyToken_def dropped_def validateStatus_def split: option.splits sum.splits)

lemma sibling_hostname_response_suggestions:
  "sent (processHostnameRequest None ''2024-01-01T00:00:00.000Z''
     (\<lambda>call. case call of
        CheckHostname h p \<Rightarrow>
          (let r = check_hostname (RegExp_match rest) big h p
                     (Response 200 (inventory [''web1'', ''web2'', ''web3'', ''web4'', ''web5'',
                        ''web6'', ''web7'']))
           in Response (status_code r) (json_body r))
      | _ \<Rightarrow> NoResponse)
     (hostname_request ''r1'' ''web5'' ''web''))
   = [\<lparr>topic = ''hostname-responses'', key = Some ''k1'',
        payload = JObj [(''requestId'', JStr ''r1''), (''hostname'', JStr ''web5''),
          (''available'', JBool False), (''suggestions'', JArr []),
          (''timestamp'', JStr ''2024-01-01T00:00:00.000Z'')]\<rparr>]"
  by code_simp

section \<open>Correlation\<close>

lemma hostname_eachMessage_echo:
  assumes "msg_value message = Some request"
  shows "\<forall>p\<in>set (sent (hostname_eachMessage tp now upstream message)).
           key p = msg_key message \<and>
           property (payload p) ''requestId'' = property request ''requestId'' \<and>
           topic p = env_or tp ''hostname-responses''"
  using assms
  by (auto simp: hostname_eachMessage_def dropped_def Let_def split: sum.splits option.splits)

lemma ip_eachMessage_echo:
  assumes "msg_value message = Some request"
  shows "\<forall>p\<in>set (fst (ip_eachMessage tok tp now upstream message st)).
           key p = msg_key message \<and>
           property (payload p) ''requestId'' = property request ''requestId'' \<and>
           topic p = env_or tp ''ip-responses''"
  using assms
  by (auto simp: ip_eachMessage_def Let_def split: sum.splits option.splits prod.splits)

text \<open>
  C5. Every message that the consumer of the hostname-request topic or the consumer of the
  ip-request topic publishes carries the key of the inbound message and, as its
  \<open>requestId\<close>, the \<open>requestId\<close> of the request (absent when the request has none), and goes
  to the response topic.
\<close>

theorem response_echoes_requestId_and_key:
  assumes "msg_value message = Some request"
  shows "(\<forall>p\<in>set (sent (hostname_eachMessage tp now upstream message)).
            key p = msg_key message \<and>
            property (payload p) ''requestId'' = property request ''requestId'' \<and>
            topic p = env_or tp ''hostname-responses'')
       \<and> (\<forall>p\<in>set (fst (ip_eachMessage tok tp' now ipam message st)).
            key p = msg_key message \<and>
            property (payload p) ''requestId'' = property request ''requestId'' \<and>
            topic p = env_or tp' ''ip-responses'')"
  using hostname_eachMessage_echo [OF assms] ip_eachMessage_echo [OF assms]
  by blast

theorem response_echoes_requestId_and_key_witness:
  "(\<exists>p. sent (hostname_eachMessage None ''2024-01-01T00:00:00.000Z''
             (Response 200 (inventory [''web1'', ''web2'']))
             (hostname_request ''r1'' ''web5'' ''web'')) = [p] \<and>
         key p = Some ''k1'' \<and> property (payload p) ''requestId'' = Some (JStr ''r1''))
   \<and> (\<exists>p. fst (ip_eachMessage (Some ''tok'') None ''2024-01-01T00:00:00.000Z''
             (first_free_is ''10.0.0.5'')
             (ip_request [(''requestId'', JStr ''r2''), (''subnetId'', JStr ''10'')])
             fresh_state) = [p] \<and>
         key p = Some ''k1'' \<and> property (payload p) ''requestId'' = Some (JStr ''r2''))"
proof -
  let ?hm = "hostname_request ''r1'' ''web5'' ''web''"
  let ?hr = "JObj [(''requestId'', JStr ''r1''), (''hostname'', JStr ''web5''), (''prefix'', JStr ''web'')]"
  let ?im = "ip_request [(''requestId'', JStr ''r2''), (''subnetId'', JStr ''10'')]"
  let ?ir = "JObj [(''requestId'', JStr ''r2''), (''subnetId'', JStr ''10'')]"
  have h1: "msg_value ?hm = Some ?hr" "msg_key ?hm = Some ''k1''"
    by (simp_all add: hostname_request_def)
  have i1: "msg_value ?im = Some ?ir" "msg_key ?im = Some ''k1''"
    by (simp_all add: ip_request_def)
  have "sent (hostname_eachMessage None ''2024-01-01T00:00:00.000Z''
             (Response 200 (inventory [''web1'', ''web2''])) ?hm)
        = [\<lparr>topic = ''hostname-responses'', key = Some ''k1'',
             payload = JObj [(''requestId'', JStr ''r1''), (''hostname'', JStr ''web5''),
               (''available'', JBool True),
               (''timestamp'', JStr ''2024-01-01T00:00:00.000Z'')]\<rparr>]"
    by code_simp
  then have h2: "\<exists>p. sent (hostname_eachMessage None ''2024-01-01T00:00:00.000Z''
             (Response 200 (inventory [''web1'', ''web2''])) ?hm) = [p]"
    by blast
  have i2: "\<exists>p. fst (ip_eachMessage (Some ''tok'') None ''2024-01-01T00:00:00.000Z''
             (first_free_is ''10.0.0.5'') ?im fresh_state) = [p]"
    by (simp add: ip_eachMessage_def ip_request_def authenticateIpam_def fresh_state_def
          phpIpamApi_get_def first_free_is_def validateStatus_def ipam_log_def)
  from h2 obtain p where p: "sent (hostname_eachMessage None ''2024-01-01T00:00:00.000Z''
             (Response 200 (inventory [''web1'', ''web2''])) ?hm) = [p]" ..
  from i2 obtain q where q: "fst (ip_eachMessage (Some ''tok'') None ''2024-01-01T00:00:00.000Z''
             (first_free_is ''10.0.0.5'') ?im fresh_state) = [q]" ..
  have "key p = Some ''k1'' \<and> property (payload p) ''requestId'' = Some (JStr ''r1'')"
    using response_echoes_requestId_and_key [OF h1(1), where tp = None
        and now = "''2024-01-01T00:00:00.000Z''"
        and upstream = "Response 200 (inventory [''web1'', ''web2''])"] p h1(2)
    by simp
  moreover have "key q = Some ''k1'' \<and> property (payload q) ''requestId'' = Some (JStr ''r2'')"
    using response_echoes_requestId_and_key [OF i1(1), where tok = "Some ''tok''"
        and tp' = None and now = "''2024-01-01T00:00:00.000Z''"
        and ipam = "first_free_is ''10.0.0.5''" and st = fresh_state] q i1(2)
    by simp
  ultimately show ?thesis using p q by blast
qed

section \<open>Dropped messages\<close>

lemma hostname_request_dropped:
  assumes "msg_value message = None
           \<or> (\<exists>request. msg_value message = Some request \<and>
                 (\<forall>h. property request ''hostname'' \<noteq> Some (JStr h)))
           \<or> axios_result upstream = Inl e"
  shows "sent (hostname_eachMessage tp now upstream message) = [] \<and>
         Error ''Error processing Kafka message''
           \<in> set (logged (hostname_eachMessage tp now upstream message))"
proof -
  have nostr: "call_toLowerCase v = Inl TypeError" if "\<forall>h. v \<noteq> Some (JStr h)" for v
    using that by (cases v rule: call_toLowerCase.cases) auto
  show ?thesis
    using assms
    by (auto simp: hostname_eachMessage_def dropped_def nostr get_prop_Some Let_def
          split: sum.splits option.splits if_splits)
qed

text \<open>
  The same consumer answers a request whose hostname is the empty string, which the HTTP
  handler and the kafka-consumer service take for a missing one.
\<close>

lemma empty_hostname_is_answered:
  "sent (hostname_eachMessage None ''2024-01-01T00:00:00.000Z''
     (Response 200 (inventory [''web1'', ''web2'']))
     \<lparr>msg_key = Some ''k1'',
      msg_value = Some (JObj [(''requestId'', JStr ''r1''), (''hostname'', JStr [])])\<rparr>)
   = [\<lparr>topic = ''hostname-responses'', key = Some ''k1'',
        payload = JObj [(''requestId'', JStr ''r1''), (''hostname'', JStr []),
          (''available'', JBool True), (''timestamp'', JStr ''2024-01-01T00:00:00.000Z'')]\<rparr>]"
  by code_simp

lemma empty_hostname_is_required:
  "check_hostname rx big (Some (JStr [])) prefix upstream = bad_request ''Hostname is required''"
  by (simp add: check_hostname_def)

lemma ip_request_dropped_on_failure:
  assumes "msg_value message = None \<or> msg_value message = Some JNull
           \<or> (\<forall>token call. axios_result (upstream token call) = Inl AxiosError)"
  shows "fst (ip_eachMessage tok tp now upstream message st) = []"
  using assms
  by (auto simp: ip_eachMessage_def Let_def phpIpamApi_get_def
        split: sum.splits option.splits prod.splits)

lemma sibling_drops_request_without_subnetId:
  assumes "msg_value message = Some request" and "\<not> truthy (property request ''subnetId'')"
  shows "sent (processIpRequest tp now engine message) = []"
  using assms
  by (auto simp: processIpRequest_def dropped_def get_prop_Some split: sum.splits if_splits)

lemma sibling_drops_request_without_hostname:
  assumes "msg_value message = Some request" and "\<not> truthy (property request ''hostname'')"
  shows "sent (processHostnameRequest tp now engine message) = []"
  using assms
  by (auto simp: processHostnameRequest_def dropped_def get_prop_Some
        split: sum.splits if_splits)

text \<open>
  C6. A message on the ip-request topic without \<open>subnetId\<close>: the consumer of the IPAM
  service does not look at the field before it asks upstream for the first free address of
  the subnet \<open>undefined\<close>, and when upstream answers that request the message is answered,
  not dropped. (The lemmas above are what does hold: the drop on an unparseable payload, on
  a missing hostname and on every upstream failure.)
\<close>

theorem ip_request_without_subnetId_is_answered:
  "ip_eachMessage (Some ''tok'') None ''2024-01-01T00:00:00.000Z'' (first_free_is ''10.0.0.5'')
     (ip_request [(''requestId'', JStr ''r1'')]) fresh_state
   = ([\<lparr>topic = ''ip-responses'', key = Some ''k1'',
        payload = JObj [(''requestId'', JStr ''r1''), (''ip'', JStr ''10.0.0.5''),
          (''timestamp'', JStr ''2024-01-01T00:00:00.000Z'')]\<rparr>],
      \<lparr>cached_token = Some (JStr ''tok''), header_token = Some (JStr ''tok''),
        calls = [(GetFirstFree ''undefined'', Some (JStr ''tok''))],
        ipam_logged = [Info ''Processing IP request for subnet'',
                       Info ''Processed IP request for subnet'']\<rparr>)"
  by code_simp

text \<open>
  C7. A message on the ip-request topic with \<open>subnetId\<close> and \<open>ip\<close>: the consumer of the
  IPAM service never reads \<open>ip\<close>. Its one upstream request is the first free address of
  the subnet, and the message it publishes carries that address as \<open>ip\<close> and no
  \<open>available\<close> property.
\<close>

theorem ip_request_with_ip_gets_first_free:
  "ip_eachMessage (Some ''tok'') None ''2024-01-01T00:00:00.000Z'' (first_free_is ''10.0.0.6'')
     (ip_request [(''requestId'', JStr ''r1''), (''subnetId'', JStr ''10''),
                  (''ip'', JStr ''10.0.0.5'')]) fresh_state
   = ([\<lparr>topic = ''ip-responses'', key = Some ''k1'',
        payload = JObj [(''requestId'', JStr ''r1''), (''subnetId'', JStr ''10''),
          (''ip'', JStr ''10.0.0.6''), (''timestamp'', JStr ''2024-01-01T00:00:00.000Z'')]\<rparr>],
      \<lparr>cached_token = Some (JStr ''tok''), header_token = Some (JStr ''tok''),
        calls = [(GetFirstFree ''10'', Some (JStr ''tok''))],
        ipam_logged = [Info ''Processing IP request for subnet'',
                       Info ''Processed IP request for subnet'']\<rparr>)"
  by code_simp

text \<open>
  The kafka-consumer service on a request with an \<open>ip\<close>: it asks the IPAM service to check
  the address and, given an answer, relays its \<open>available\<close>. (Posting without a token, it
  is answered 401 by the IPAM service of this repository: \<open>sibling_is_unauthorized\<close>.)
\<close>

lemma sibling_checks_the_ip:
  "sent (processIpRequest None ''2024-01-01T00:00:00.000Z''
     (\<lambda>call. case call of
        CheckIp ip subnetId \<Rightarrow> Response 200 (JObj [(''available'', JBool False)])
      | _ \<Rightarrow> NoResponse)
     (ip_request [(''requestId'', JStr ''r1''), (''subnetId'', JStr ''10''),
                  (''ip'', JStr ''10.0.0.5'')]))
   = [\<lparr>topic = ''ip-responses'', key = Some ''k1'',
        payload = JObj [(''requestId'', JStr ''r1''), (''subnetId'', JStr ''10''),
          (''ip'', JStr ''10.0.0.5''), (''available'', JBool False),
          (''timestamp'', JStr ''2024-01-01T00:00:00.000Z'')]\<rparr>]"
  by code_simp

section \<open>Upstream failures\<close>

lemma authenticateIpam_calls:
  "\<exists>auth. calls (snd (authenticateIpam tok up st)) = calls st @ auth \<and>
      (auth = [] \<or> auth = [(PostUser, None)])"
  by (auto simp: authenticateIpam_def ipam_log_def Let_def split: sum.splits)

lemma phpIpamApi_get_calls:
  "calls (snd (phpIpamApi_get up c st)) = calls st @ [(c, header_token st)]"
  by (simp add: phpIpamApi_get_def)

lemma next_available_calls:
  "\<exists>auth gets. calls (snd (next_available tok up sid st)) = calls st @ auth @ gets \<and>
      (auth = [] \<or> auth = [(PostUser, None)]) \<and>
      (gets = [] \<or> (\<exists>t. gets = [(GetFirstFree (toString sid), t)]))"
proof -
  obtain auth where a: "calls (snd (authenticateIpam tok up st)) = calls st @ auth"
    "auth = [] \<or> auth = [(PostUser, None)]"
    using authenticateIpam_calls by blast
  show ?thesis
    using a
    by (cases "authenticateIpam tok up st")
       (auto simp: next_available_def Let_def ipam_log_def phpIpamApi_get_def
          split: sum.splits prod.splits)
qed

lemma ip_eachMessage_calls:
  "\<exists>auth gets. calls (snd (ip_eachMessage tok tp now up message st)) = calls st @ auth @ gets \<and>
      (auth = [] \<or> auth = [(PostUser, None)]) \<and>
      (gets = [] \<or> (\<exists>i t. gets = [(GetFirstFree i, t)]))"
proof (cases "msg_value message")
  case None
  then show ?thesis by (simp add: ip_eachMessage_def ipam_log_def)
next
  case (Some request)
  let ?st = "ipam_log (Info ''Processing IP request for subnet'') st"
  obtain auth where a: "calls (snd (authenticateIpam tok up ?st)) = calls ?st @ auth"
    "auth = [] \<or> auth = [(PostUser, None)]"
    using authenticateIpam_calls by blast
  have c: "calls ?st = calls st" by (simp add: ipam_log_def)
  show ?thesis
    using a c Some
    by (cases "authenticateIpam tok up ?st")
       (auto simp: ip_eachMessage_def Let_def ipam_log_def phpIpamApi_get_def
          split: sum.splits prod.splits)
qed

text \<open>
  C8, as stated, fails: upstream accepts the login and answers 401 to the request for the
  first free address. The handler replies 500 after exactly these two requests: nothing is
  sent after the 401, neither a second login nor a second attempt.
\<close>

theorem unauthorized_is_not_retried:
  "next_available None login_then_401 (Some (JStr ''10'')) fresh_state
   = (\<lparr>status_code = 500,
       json_body = JObj [(''error'', JStr ''Internal Server Error''),
         (''message'', JStr ''Failed to get next available IP address'')]\<rparr>,
      \<lparr>cached_token = Some (JStr ''t1''), header_token = Some (JStr ''t1''),
        calls = [(PostUser, None), (GetFirstFree ''10'', Some (JStr ''t1''))],
        ipam_logged = [Error ''Failed to get next available IP'']\<rparr>)"
  by code_simp

lemma unauthorized_next_available:
  assumes "\<forall>token i. upstream token (GetFirstFree i) = Response 401 b" and "truthy subnetId"
  shows "fst (next_available api_token upstream subnetId st)
           = internal_error ''Failed to get next available IP address''"
  using assms
  by (auto simp: next_available_def Let_def phpIpamApi_get_def validateStatus_def
        split: sum.splits prod.splits)

lemma unauthorized_ip_eachMessage:
  assumes "\<forall>token i. upstream token (GetFirstFree i) = Response 401 b"
  shows "fst (ip_eachMessage api_token tp now upstream message st) = []"
  using assms
  by (auto simp: ip_eachMessage_def Let_def phpIpamApi_get_def validateStatus_def ipam_log_def
        split: sum.splits prod.splits option.splits)

lemma authenticateIpam_logged:
  "\<exists>logs. ipam_logged (snd (authenticateIpam tok up st)) = ipam_logged st @ logs"
  by (auto simp: authenticateIpam_def ipam_log_def Let_def split: sum.splits)

lemma unauthorized_ip_eachMessage_logged:
  assumes "\<forall>token i. upstream token (GetFirstFree i) = Response 401 b"
  shows "\<exists>logs. ipam_logged (snd (ip_eachMessage api_token tp now upstream message st))
           = ipam_logged st @ logs @ [Error ''Error processing Kafka message'']"
proof (cases "msg_value message")
  case None
  then show ?thesis by (simp add: ip_eachMessage_def ipam_log_def)
next
  case (Some request)
  let ?st = "ipam_log (Info ''Processing IP request for subnet'') st"
  obtain logs where l: "ipam_logged (snd (authenticateIpam api_token upstream ?st))
                          = ipam_logged ?st @ logs"
    using authenticateIpam_logged by blast
  have c: "ipam_logged ?st = ipam_logged st @ [Info ''Processing IP request for subnet'']"
    by (simp add: ipam_log_def)
  show ?thesis
    using l c Some assms
    by (cases "authenticateIpam api_token upstream ?st")
       (auto simp: ip_eachMessage_def Let_def ipam_log_def phpIpamApi_get_def validateStatus_def
          split: sum.splits prod.splits)
qed

text \<open>
  C8, amended. When upstream answers 401 to the request for the first free address, no
  re-authentication and no retry follows: the handler has sent at most one login, before
  the request, and the request at most once, and nothing after it. The call is rejected:
  \<^verbatim>\<open>POST /ipam/next-available\<close> answers 500, and the consumer of the ip-request topic logs an
  error and publishes nothing.
\<close>

theorem unauthorized_fails_the_call:
  assumes "\<forall>token i. upstream token (GetFirstFree i) = Response 401 b"
  shows "(truthy subnetId \<longrightarrow>
            fst (next_available api_token upstream subnetId st)
              = internal_error ''Failed to get next available IP address'')
       \<and> (\<exists>auth gets.
            calls (snd (next_available api_token upstream subnetId st)) = calls st @ auth @ gets \<and>
            (auth = [] \<or> auth = [(PostUser, None)]) \<and>
            (gets = [] \<or> (\<exists>t. gets = [(GetFirstFree (toString subnetId), t)])))
       \<and> fst (ip_eachMessage api_token tp now upstream message st) = []
       \<and> (\<exists>logs. ipam_logged (snd (ip_eachMessage api_token tp now upstream message st))
            = ipam_logged st @ logs @ [Error ''Error processing Kafka message''])
       \<and> (\<exists>auth gets.
            calls (snd (ip_eachMessage api_token tp now upstream message st))
              = calls st @ auth @ gets \<and>
            (auth = [] \<or> auth = [(PostUser, None)]) \<and>
            (gets = [] \<or> (\<exists>i t. gets = [(GetFirstFree i, t)])))"
proof (intro conjI impI)
  assume "truthy subnetId"
  then show "fst (next_available api_token upstream subnetId st)
               = internal_error ''Failed to get next available IP address''"
    by (rule unauthorized_next_available [OF assms])
next
  show "\<exists>auth gets.
          calls (snd (next_available api_token upstream subnetId st)) = calls st @ auth @ gets \<and>
          (auth = [] \<or> auth = [(PostUser, None)]) \<and>
          (gets = [] \<or> (\<exists>t. gets = [(GetFirstFree (toString subnetId), t)]))"
    by (rule next_available_calls)
next
  show "fst (ip_eachMessage api_token tp now upstream message st) = []"
    by (rule unauthorized_ip_eachMessage [OF assms])
next
  show "\<exists>logs. ipam_logged (snd (ip_eachMessage api_token tp now upstream message st))
          = ipam_logged st @ logs @ [Error ''Error processing Kafka message'']"
    by (rule unauthorized_ip_eachMessage_logged [OF assms])
next
  show "\<exists>auth gets.
          calls (snd (ip_eachMessage api_token tp now upstream message st))
            = calls st @ auth @ gets \<and>
          (auth = [] \<or> auth = [(PostUser, None)]) \<and>
          (gets = [] \<or> (\<exists>i t. gets = [(GetFirstFree i, t)]))"
    by (rule ip_eachMessage_calls)
qed

theorem unauthorized_fails_the_call_witness:
  "truthy (Some (JStr ''10'')) \<and>
   fst (next_available None login_then_401 (Some (JStr ''10'')) fresh_state)
     = internal_error ''Failed to get next available IP address'' \<and>
   fst (ip_eachMessage None None ''2024-01-01T00:00:00.000Z'' login_then_401
          (ip_request [(''requestId'', JStr ''r1''), (''subnetId'', JStr ''10'')]) fresh_state)
     = []"
proof -
  have a: "\<forall>token i. login_then_401 token (GetFirstFree i) = Response 401 JNull"
    by (simp add: login_then_401_def)
  have t: "truthy (Some (JStr ''10''))"
    by simp
  show ?thesis
    using t unauthorized_fails_the_call [where upstream = login_then_401, OF a,
        where subnetId = "Some (JStr ''10'')" and api_token = None and st = fresh_state
        and tp = None and now = "''2024-01-01T00:00:00.000Z''"
        and message = "ip_request [(''requestId'', JStr ''r1''), (''subnetId'', JStr ''10'')]"]
    by blast
qed

text \<open>
  With a token in the cache and a 2xx answer, the handler relays whatever the answer holds
  as \<open>data\<close>: an exhaustion reported inside such an answer would pass as a success.
\<close>

lemma next_available_relays_data:
  assumes "truthy subnetId" and "truthy (cached_token st)" and "validateStatus s"
    and "b \<noteq> JNull"
    and "upstream (cached_token st) (GetFirstFree (toString subnetId)) = Response s b"
  shows "fst (next_available api_token upstream subnetId st)
           = reply 200 [(''ip'', property b ''data''), (''subnetId'', subnetId)]"
  using assms
  by (simp add: next_available_def authenticateIpam_def phpIpamApi_get_def get_prop_Some)

text \<open>
  C9, as stated, fails: when upstream answers 404 "No free addresses found",
  \<^verbatim>\<open>POST /ipam/next-available\<close> replies 500 "Internal Server Error", the very reply it
  gives when upstream cannot be reached.
\<close>

theorem exhaustion_is_internal_error:
  "fst (next_available (Some ''tok'') no_free_address (Some (JStr ''10'')) fresh_state)
     = \<lparr>status_code = 500,
        json_body = JObj [(''error'', JStr ''Internal Server Error''),
          (''message'', JStr ''Failed to get next available IP address'')]\<rparr>
   \<and> fst (next_available (Some ''tok'') no_free_address (Some (JStr ''10'')) fresh_state)
     = fst (next_available (Some ''tok'') unreachable (Some (JStr ''10'')) fresh_state)"
  by code_simp

text \<open>
  C9, amended. Whenever upstream answers the request for the first free address with a
  status outside 2xx, an exhausted subnet included, \<^verbatim>\<open>POST /ipam/next-available\<close>
  replies 500 with the error "Internal Server Error" and the message "Failed to get next
  available IP address".
\<close>

theorem upstream_failure_is_internal_error:
  assumes "truthy subnetId" and "\<not> validateStatus s"
    and "\<forall>token. upstream token (GetFirstFree (toString subnetId)) = Response s b"
  shows "fst (next_available api_token upstream subnetId st)
           = internal_error ''Failed to get next available IP address''"
  using assms
  by (auto simp: next_available_def Let_def phpIpamApi_get_def split: sum.splits prod.splits)

theorem upstream_failure_is_internal_error_witness:
  "truthy (Some (JStr ''10'')) \<and> \<not> validateStatus 404 \<and>
   fst (next_available (Some ''tok'') no_free_address (Some (JStr ''10'')) fresh_state)
     = internal_error ''Failed to get next available IP address''"
proof -
  have a: "truthy (Some (JStr ''10''))" by simp
  have b: "\<not> validateStatus 404" by (simp add: validateStatus_def)
  have c: "\<forall>token. no_free_address token (GetFirstFree (toString (Some (JStr ''10''))))
             = Response 404 (JObj [(''code'', JNum 404), (''success'', JBool False),
                            (''message'', JStr ''No free addresses found'')])"
    by (simp add: no_free_address_def)
  show ?thesis
    using a b upstream_failure_is_internal_error [where upstream = no_free_address, OF a b c] by simp
qed

section \<open>The unescaped prefix\<close>

lemma existing_prefix_names_filter:
  "existing_prefix_names (filter (may_count p) vms) (toLowerCase p)
     = existing_prefix_names vms (toLowerCase p)"
proof (induction vms)
  case Nil
  then show ?case by simp
next
  case (Cons v vms)
  show ?case
  proof (cases "may_count p v")
    case True
    then show ?thesis using Cons by (simp split: sum.splits)
  next
    case False
    then obtain n where n: "entry_name v = Some n"
      and ns: "\<not> startsWith (toLowerCase n) (toLowerCase p)"
      by (auto simp: may_count_def split: option.splits)
    show ?thesis
      using False Cons entry_name_Some [OF n] ns by (simp split: sum.splits)
  qed
qed

lemma suggest_filter:
  "suggest rx big (Some (JStr p)) vms = suggest rx big (Some (JStr p)) (filter (may_count p) vms)"
  by (simp add: suggest_def existing_prefix_names_filter)

text \<open>
  C10, as stated, fails: no name that does not begin with the prefix (compared in lower
  case) has any influence on the suggestions, whatever the regular expression matches,
  since the names are filtered with \<open>startsWith\<close> before the expression is applied.
\<close>

theorem names_without_prefix_never_count:
  "\<not> (\<exists>rx big p vms v n.
        v \<in> set vms \<and> entry_name v = Some n \<and>
        \<not> startsWith (toLowerCase n) (toLowerCase p) \<and>
        suggest rx big (Some (JStr p)) vms \<noteq> suggest rx big (Some (JStr p)) (removeAll v vms))"
proof -
  have "suggest rx big (Some (JStr p)) vms = suggest rx big (Some (JStr p)) (removeAll v vms)"
    if "entry_name v = Some n" and "\<not> startsWith (toLowerCase n) (toLowerCase p)"
    for rx big p vms v n
  proof -
    have "\<not> may_count p v"
      using that by (simp add: may_count_def)
    then have "filter (may_count p) (removeAll v vms) = filter (may_count p) vms"
      by (induction vms) auto
    then show ?thesis
      using suggest_filter [of rx big p vms] suggest_filter [of rx big p "removeAll v vms"]
      by simp
  qed
  then show ?thesis by blast
qed

text \<open>
  C10, amended. The prefix goes unescaped into \<^verbatim>\<open>^<prefix>(\d+)$\<close>, and only the names
  that begin with the prefix are matched against it. With a metacharacter the suggestions
  can still differ from those counted over the names literally of the form
  \<open><prefix><digits>\<close>, because such a name fails to match: for the prefix \<^verbatim>\<open>web+\<close> and the
  name \<^verbatim>\<open>web+5\<close> they are \<^verbatim>\<open>web+1\<close>, \<^verbatim>\<open>web+2\<close>, \<^verbatim>\<open>web+3\<close>, not \<^verbatim>\<open>web+6\<close>,
  \<^verbatim>\<open>web+7\<close>, \<^verbatim>\<open>web+8\<close>. For the prefix \<^verbatim>\<open>web.\<close> the two agree: \<^verbatim>\<open>webx5\<close> is
  filtered out.
\<close>

theorem unescaped_prefix_changes_numbering:
  "suggest rx big (Some (JStr p)) vms
     = suggest rx big (Some (JStr p)) (filter (may_count p) vms)
   \<and> suggest (RegExp_match rest) big (Some (JStr ''web+'')) (map vm [''web+5''])
       = Inr [''web+1'', ''web+2'', ''web+3'']
   \<and> literal_suggestions ''web+'' [''web+5''] = [''web+6'', ''web+7'', ''web+8'']
   \<and> suggest (RegExp_match rest) big (Some (JStr ''web.'')) (map vm [''webx5'', ''web.2''])
       = Inr (literal_suggestions ''web.'' [''webx5'', ''web.2''])"
proof -
  have "suggest (RegExp_match rest) big (Some (JStr ''web+'')) (map vm [''web+5''])
       = Inr [''web+1'', ''web+2'', ''web+3'']"
    by code_simp
  moreover have "literal_suggestions ''web+'' [''web+5''] = [''web+6'', ''web+7'', ''web+8'']"
    by code_simp
  moreover have "suggest (RegExp_match rest) big (Some (JStr ''web.''))
                   (map vm [''webx5'', ''web.2''])
       = Inr (literal_suggestions ''web.'' [''webx5'', ''web.2''])"
    by code_simp
  ultimately show ?thesis
    using suggest_filter [of rx big p vms] by simp
qed

end
